theory Spec2Isabelle
  imports Main
begin

section \<open>Python values and exceptions\<close>

text \<open>
  The module \<open>textsumm/models/transformers/datasets.py\<close> is dynamically typed: a
  preprocessing function may turn a line (a \<open>str\<close>) into a list of sentences, and
  \<open>_preprocess\<close> returns either the processed value or a 2-tuple of it and its tokens.
  The values the module handles are therefore one datatype.
\<close>

datatype pyval =
    PNone
  | PInt int
  | PStr string
  | PList "pyval list"
  | PTuple "pyval list"

text \<open>
  Exceptions are values. \<open>PicklingError\<close> is what \<open>pickle\<close> raises on an object it
  cannot serialize; \<open>OtherError\<close> stands for whatever else a caller-supplied
  preprocessing or tokenization function raises.
\<close>

datatype error =
    ValueError
  | TypeError
  | IndexError
  | AssertionError
  | AttributeError
  | FileNotFoundError
  | ZeroDivisionError
  | PicklingError
  | OtherError

type_synonym pyfun = "pyval \<Rightarrow> error + pyval"

definition ebind :: "error + 'a \<Rightarrow> ('a \<Rightarrow> error + 'b) \<Rightarrow> error + 'b" where
  "ebind m f = (case m of Inl e \<Rightarrow> Inl e | Inr x \<Rightarrow> f x)"

text \<open>\<open>len(x)\<close>: defined on strings, lists and tuples, a \<open>TypeError\<close> elsewhere.\<close>

fun py_len :: "pyval \<Rightarrow> error + nat" where
  "py_len (PStr s) = Inr (length s)"
| "py_len (PList xs) = Inr (length xs)"
| "py_len (PTuple xs) = Inr (length xs)"
| "py_len PNone = Inl TypeError"
| "py_len (PInt n) = Inl TypeError"

text \<open>\<open>for y in x\<close>: a string yields its characters as one-character strings.\<close>

fun py_iter :: "pyval \<Rightarrow> error + pyval list" where
  "py_iter (PStr s) = Inr (map (\<lambda>c. PStr [c]) s)"
| "py_iter (PList xs) = Inr xs"
| "py_iter (PTuple xs) = Inr xs"
| "py_iter PNone = Inl TypeError"
| "py_iter (PInt n) = Inl TypeError"

text \<open>\<open>xs[i]\<close> on a Python list: a negative index counts from the end.\<close>

definition list_getitem :: "'a list \<Rightarrow> int \<Rightarrow> error + 'a" where
  "list_getitem xs idx =
     (if 0 \<le> idx \<and> idx < int (length xs) then Inr (xs ! nat idx)
      else if idx < 0 \<and> - int (length xs) \<le> idx then Inr (xs ! nat (int (length xs) + idx))
      else Inl IndexError)"

text \<open>\<open>x[i]\<close> on a value.\<close>

fun py_getitem :: "pyval \<Rightarrow> int \<Rightarrow> error + pyval" where
  "py_getitem (PStr s) i = list_getitem (map (\<lambda>c. PStr [c]) s) i"
| "py_getitem (PList xs) i = list_getitem xs i"
| "py_getitem (PTuple xs) i = list_getitem xs i"
| "py_getitem PNone i = Inl TypeError"
| "py_getitem (PInt n) i = Inl TypeError"

text \<open>
  \<open>xs[0:n]\<close> on a list: a negative bound counts from the end and is clamped at 0,
  a bound beyond the end is clamped at the length.
\<close>

definition slice_to :: "'a list \<Rightarrow> int \<Rightarrow> 'a list" where
  "slice_to xs n =
     (if n < 0 then take (nat (int (length xs) + n)) xs else take (nat n) xs)"

text \<open>
  A loop whose body may raise: the first exception, in element order, ends it.
\<close>

fun mapM :: "('a \<Rightarrow> error + 'b) \<Rightarrow> 'a list \<Rightarrow> error + 'b list" where
  "mapM f [] = Inr []"
| "mapM f (x # xs) =
     (case f x of
        Inl e \<Rightarrow> Inl e
      | Inr y \<Rightarrow> (case mapM f xs of Inl e \<Rightarrow> Inl e | Inr ys \<Rightarrow> Inr (y # ys)))"

text \<open>
  \<open>list(map(f, filter(p, xs)))\<close>: both are lazy, so each element is tested and, when
  kept, mapped before the next one is looked at.
\<close>

fun filter_map :: "('a \<Rightarrow> error + bool) \<Rightarrow> ('a \<Rightarrow> error + 'b) \<Rightarrow> 'a list \<Rightarrow> error + 'b list" where
  "filter_map p f [] = Inr []"
| "filter_map p f (x # xs) =
     (case p x of
        Inl e \<Rightarrow> Inl e
      | Inr keep \<Rightarrow>
          if keep then
            (case f x of
               Inl e \<Rightarrow> Inl e
             | Inr y \<Rightarrow> (case filter_map p f xs of Inl e \<Rightarrow> Inl e | Inr ys \<Rightarrow> Inr (y # ys)))
          else filter_map p f xs)"

section \<open>The preprocessing primitive\<close>

text \<open>
  \<^verbatim>\<open>
  def _preprocess(sentences, preprocess_pipeline, word_tokenize=None):
      if preprocess_pipeline is not None:
          for function in preprocess_pipeline:
              sentences = function(sentences)
      if word_tokenize is None:
          return sentences
      else:
          return sentences, [word_tokenize(sentence) for sentence in sentences]
  \<close>
\<close>

fun run_pipeline :: "pyfun list \<Rightarrow> pyval \<Rightarrow> error + pyval" where
  "run_pipeline [] sentences = Inr sentences"
| "run_pipeline (function # rest) sentences =
     (case function sentences of
        Inl e \<Rightarrow> Inl e
      | Inr sentences' \<Rightarrow> run_pipeline rest sentences')"

definition preprocess :: "pyfun list option \<Rightarrow> pyfun option \<Rightarrow> pyval \<Rightarrow> error + pyval" where
  "preprocess preprocess_pipeline word_tokenize sentences =
     ebind (case preprocess_pipeline of
              None \<Rightarrow> Inr sentences
            | Some fs \<Rightarrow> run_pipeline fs sentences)
       (\<lambda>sentences'.
          case word_tokenize of
            None \<Rightarrow> Inr sentences'
          | Some tok \<Rightarrow>
              ebind (py_iter sentences')
                (\<lambda>ss. ebind (mapM tok ss)
                   (\<lambda>ts. Inr (PTuple [sentences', PList ts]))))"

section \<open>The worker pool\<close>

text \<open>
  \<open>multiprocessing.Pool\<close> is the standard library's. Its constructor refuses a size
  below 1 with a \<open>ValueError\<close>. \<open>Pool.map\<close> cuts the input into consecutive batches of
  \<open>chunksize\<close> items (\<open>Pool._get_tasks\<close>), has each batch mapped by one worker and
  concatenates the batches' results in the order of the batches, whichever worker
  finishes first. With a chunk size of 0 the library submits no batch and hands back
  its preallocated list of \<open>None\<close>.

  Every batch travels to its worker pickled, together with the function. A function
  that cannot be pickled (a lambda, a local function) makes every batch fail with the
  pickling exception before any item is processed. Which functions can be pickled is
  not visible in a function's values, so it is a parameter, \<open>picklable\<close>.

  One failing item fails its batch and one failing batch fails the call, with the
  failure of the batch that reports first; which one that is depends on the
  scheduling of the workers. The parameter \<open>arrives_first\<close> stands for the
  scheduling: of the failures of the batches, in batch order, it names the one by its
  position (taken modulo their number, so that it always names one of them).
\<close>

record pool_env =
  picklable :: "pyfun \<Rightarrow> bool"
  arrives_first :: "error list \<Rightarrow> nat"

fun failures :: "(error + 'a) list \<Rightarrow> error list" where
  "failures [] = []"
| "failures (Inl e # outcomes) = e # failures outcomes"
| "failures (Inr y # outcomes) = failures outcomes"

fun successes :: "(error + 'a) list \<Rightarrow> 'a list" where
  "successes [] = []"
| "successes (Inl e # outcomes) = successes outcomes"
| "successes (Inr y # outcomes) = y # successes outcomes"


definition Pool :: "int \<Rightarrow> error + nat" where
  "Pool processes = (if processes < 1 then Inl ValueError else Inr (nat processes))"

function get_tasks :: "nat \<Rightarrow> 'a list \<Rightarrow> 'a list list" where
  "get_tasks sz it =
     (if sz = 0 \<or> it = [] then [] else take sz it # get_tasks sz (drop sz it))"
  by pat_completeness auto
termination
  by (relation "measure (\<lambda>(sz, it). length it)") auto

declare get_tasks.simps [simp del]

text \<open>\<open>sendable\<close> says whether the function handed to \<open>map\<close> can be pickled.\<close>

definition pool_map :: "pool_env \<Rightarrow> bool \<Rightarrow> pyfun \<Rightarrow> pyval list \<Rightarrow> int \<Rightarrow> error + pyval list" where
  "pool_map pool sendable func iterable chunksize =
     (if chunksize \<le> 0 then Inr (replicate (length iterable) PNone)
      else if \<not> sendable then Inl PicklingError
      else
        (let outcomes = map (mapM func) (get_tasks (nat chunksize) iterable);
             failed = failures outcomes
         in if failed = [] then Inr (concat (successes outcomes))
            else Inl (failed ! (arrives_first pool failed mod length failed))))"

section \<open>The parallel preprocessing coordinator\<close>

text \<open>
  \<^verbatim>\<open>
  def parallel_preprocess(input_data, preprocess_pipeline, word_tokenize=None, num_pool=-1):
      if num_pool == -1:
          num_pool = cpu_count()
      num_pool = min(num_pool, len(input_data))
      p = Pool(num_pool)
      results = p.map(partial(_preprocess, ...), input_data,
                      chunksize=min(1, int(len(input_data) / num_pool)))
      p.close(); p.join()
      return results
  \<close>
  \<open>cpu_count()\<close> is the machine's; it is the parameter \<open>cpu_count\<close> here.
  \<open>int(a / b)\<close> is the quotient rounded towards zero, a \<open>ZeroDivisionError\<close> when
  \<open>b\<close> is 0.
\<close>

definition resolve_num_pool :: "int \<Rightarrow> nat \<Rightarrow> int \<Rightarrow> int" where
  "resolve_num_pool cpu_count n num_pool =
     min (if num_pool = - 1 then cpu_count else num_pool) (int n)"

definition int_truediv :: "int \<Rightarrow> int \<Rightarrow> error + int" where
  "int_truediv a b =
     (if b = 0 then Inl ZeroDivisionError
      else Inr (sgn a * sgn b * (\<bar>a\<bar> div \<bar>b\<bar>)))"

definition chunksize_of :: "nat \<Rightarrow> int \<Rightarrow> error + int" where
  "chunksize_of n num_pool = ebind (int_truediv (int n) num_pool) (\<lambda>q. Inr (min 1 q))"

text \<open>
  What the function hands to the pool: the size it is built with and the chunk size of
  the one \<open>map\<close> call, or the exception raised before the call is made.
\<close>

definition pool_arguments :: "int \<Rightarrow> nat \<Rightarrow> int \<Rightarrow> error + (nat \<times> int)" where
  "pool_arguments cpu_count n num_pool =
     (let num_pool' = resolve_num_pool cpu_count n num_pool
      in ebind (Pool num_pool')
           (\<lambda>p. ebind (chunksize_of n num_pool') (\<lambda>c. Inr (p, c))))"

text \<open>
  The function handed to \<open>map\<close> is \<open>partial(_preprocess, preprocess_pipeline=...,
  word_tokenize=...)\<close>: it can be pickled when every function of the pipeline and the
  tokenizer can (\<open>_preprocess\<close> itself is a function of the module).
\<close>

definition partial_picklable :: "(pyfun \<Rightarrow> bool) \<Rightarrow> pyfun list option \<Rightarrow> pyfun option \<Rightarrow> bool" where
  "partial_picklable can_pickle preprocess_pipeline word_tokenize =
     ((case preprocess_pipeline of None \<Rightarrow> True | Some fs \<Rightarrow> list_all can_pickle fs)
      \<and> (case word_tokenize of None \<Rightarrow> True | Some tok \<Rightarrow> can_pickle tok))"

definition parallel_preprocess ::
  "pool_env \<Rightarrow> int \<Rightarrow> pyval list \<Rightarrow> pyfun list option \<Rightarrow> pyfun option \<Rightarrow> int
     \<Rightarrow> error + pyval list" where
  "parallel_preprocess pool cpu_count input_data preprocess_pipeline word_tokenize num_pool =
     ebind (pool_arguments cpu_count (length input_data) num_pool)
       (\<lambda>(p, chunksize).
          pool_map pool (partial_picklable (picklable pool) preprocess_pipeline word_tokenize)
            (preprocess preprocess_pipeline word_tokenize) input_data chunksize)"

section \<open>Reading lines\<close>

text \<open>
  The file system is a map from a path to the lines of the file there; a path outside
  its domain does not exist. \<open>itertools.islice(it, stop)\<close> refuses a stop that is
  negative or beyond \<open>sys.maxsize\<close> with a \<open>ValueError\<close>, when it is built.
\<close>

type_synonym filesystem = "string \<Rightarrow> string list option"

definition sys_maxsize :: int where
  "sys_maxsize = 2 ^ 63 - 1"

definition islice_stop :: "int \<Rightarrow> error + nat" where
  "islice_stop stop =
     (if 0 \<le> stop \<and> stop \<le> sys_maxsize then Inr (nat stop) else Inl ValueError)"

section \<open>The materialized dataset\<close>

text \<open>
  \<^verbatim>\<open>
  self._source_txt = []
  if source_file is not None and os.path.exists(source_file):
      with open(source_file, encoding="utf-8") as f:
          if top_n != -1:
              self._source_txt = list(itertools.islice(f, top_n))
          else:
              self._source_txt = f.readlines()
  if source:
      self._source_txt.extend(source)
  \<close>
  The same lines are written once more for the target.
\<close>

definition load_txt :: "filesystem \<Rightarrow> string option \<Rightarrow> string list option \<Rightarrow> int \<Rightarrow> error + string list" where
  "load_txt fs file given top_n =
     ebind (case file of
              None \<Rightarrow> Inr []
            | Some path \<Rightarrow>
                (case fs path of
                   None \<Rightarrow> Inr []
                 | Some lines \<Rightarrow>
                     if top_n \<noteq> - 1 then ebind (islice_stop top_n) (\<lambda>k. Inr (take k lines))
                     else Inr lines))
       (\<lambda>txt. case given of
                 None \<Rightarrow> Inr txt
               | Some extra \<Rightarrow> if extra \<noteq> [] then Inr (txt @ extra) else Inr txt)"

text \<open>
  \<^verbatim>\<open>
  if word_tokenize:
      self._source_txt = list(map(lambda x: x[0], filter(lambda x: len(x[0]) > 0, result)))
      self._source = list(map(lambda x: x[1], filter(lambda x: len(x[1]) > 0, result)))
  else:
      self._source = list(map(lambda x: x, filter(lambda x: len(x) > 0, result)))
  \<close>
  Again the target's lines are the same. The first component is the new raw
  sequence, the second the processed one.
\<close>

definition component_nonempty :: "int \<Rightarrow> pyval \<Rightarrow> error + bool" where
  "component_nonempty k x = ebind (py_getitem x k) (\<lambda>y. ebind (py_len y) (\<lambda>n. Inr (0 < n)))"

definition value_nonempty :: "pyval \<Rightarrow> error + bool" where
  "value_nonempty x = ebind (py_len x) (\<lambda>n. Inr (0 < n))"

definition keep_results :: "pyfun option \<Rightarrow> pyval list \<Rightarrow> pyval list \<Rightarrow> error + (pyval list \<times> pyval list)" where
  "keep_results word_tokenize txt result =
     (case word_tokenize of
        Some tok \<Rightarrow>
          ebind (filter_map (component_nonempty 0) (\<lambda>x. py_getitem x 0) result)
            (\<lambda>txt'. ebind (filter_map (component_nonempty 1) (\<lambda>x. py_getitem x 1) result)
               (\<lambda>processed. Inr (txt', processed)))
      | None \<Rightarrow>
          ebind (filter_map value_nonempty Inr result)
            (\<lambda>processed. Inr (txt, processed)))"

text \<open>
  The instance. \<open>self._target_txt\<close> is \<open>None\<close> or a list; \<open>self._target\<close> is an
  attribute that the constructor assigns only inside its target branch, so here
  \<open>None\<close> says that the attribute does not exist.
\<close>

record summarization_dataset =
  self_source_txt :: "pyval list"
  self_source :: "pyval list"
  self_target_txt :: "pyval list option"
  self_target :: "pyval list option"

record init_args =
  source_file :: "string option"
  source :: "string list option"
  target_file :: "string option"
  target :: "string list option"
  source_preprocessing :: "pyfun list option"
  target_preprocessing :: "pyfun list option"
  word_tokenize :: "pyfun option"
  top_n :: int
  n_processes :: int

definition summarization_dataset_init ::
  "filesystem \<Rightarrow> pool_env \<Rightarrow> int \<Rightarrow> init_args \<Rightarrow> error + summarization_dataset" where
  "summarization_dataset_init fs pool cpu_count a =
     ebind (load_txt fs (source_file a) (source a) (top_n a))
       (\<lambda>source_txt.
     ebind (load_txt fs (target_file a) (target a) (top_n a))
       (\<lambda>target_lines.
     let target_txt = (if length target_lines = 0 then None else Some target_lines) in
     if target_txt \<noteq> None \<and> length source_txt \<noteq> length target_lines then Inl AssertionError
     else
     ebind (parallel_preprocess pool cpu_count (map PStr source_txt)
              (source_preprocessing a) (word_tokenize a) (n_processes a))
       (\<lambda>result.
     ebind (keep_results (word_tokenize a) (map PStr source_txt) result)
       (\<lambda>(source_txt', source').
     case target_txt of
       None \<Rightarrow>
         Inr \<lparr>self_source_txt = source_txt', self_source = source',
              self_target_txt = None, self_target = None\<rparr>
     | Some lines \<Rightarrow>
         if 0 < length lines then
           ebind (parallel_preprocess pool cpu_count (map PStr lines)
                    (target_preprocessing a) (word_tokenize a) (n_processes a))
             (\<lambda>result'.
           ebind (keep_results (word_tokenize a) (map PStr lines) result')
             (\<lambda>(target_txt', target').
           Inr \<lparr>self_source_txt = source_txt', self_source = source',
                self_target_txt = Some target_txt', self_target = Some target'\<rparr>))
         else
           Inr \<lparr>self_source_txt = source_txt', self_source = source',
                self_target_txt = Some (map PStr lines), self_target = None\<rparr>))))"

text \<open>
  \<^verbatim>\<open>
  def shorten(self, top_n=None):
      if top_n is None:
          return self
      elif top_n <= len(self._source):
          self._source = self._source[0:top_n]
          self._source_txt = self._source_txt[0:top_n]
          if self._target_txt is not None:
              self._target = self._target[0:top_n]
              self._target_txt = self._target_txt[0:top_n]
          return self
      else:
          return self
  \<close>
  The method mutates and returns \<open>self\<close>; the model returns the instance after the call.
\<close>

definition shorten :: "int option \<Rightarrow> summarization_dataset \<Rightarrow> error + summarization_dataset" where
  "shorten bound self =
     (case bound of
        None \<Rightarrow> Inr self
      | Some n \<Rightarrow>
          if n \<le> int (length (self_source self)) then
            (let self' = self\<lparr>self_source := slice_to (self_source self) n,
                              self_source_txt := slice_to (self_source_txt self) n\<rparr>
             in case self_target_txt self' of
                  None \<Rightarrow> Inr self'
                | Some tt \<Rightarrow>
                    (case self_target self' of
                       None \<Rightarrow> Inl AttributeError
                     | Some t \<Rightarrow>
                         Inr (self'\<lparr>self_target := Some (slice_to t n),
                                     self_target_txt := Some (slice_to tt n)\<rparr>)))
          else Inr self)"

text \<open>
  \<^verbatim>\<open>
  def __getitem__(self, idx):
      if self._target_txt is None:
          return {"src": self._source[idx], "src_txt": self._source_txt[idx]}
      else:
          return {"src": self._source[idx], "src_txt": self._source_txt[idx],
                  "tgt": self._target[idx], "tgt_txt": self._target_txt[idx]}
  \<close>
  A dictionary is the list of its items, in insertion order.
\<close>

type_synonym pydict = "(string \<times> pyval) list"

definition getitem :: "summarization_dataset \<Rightarrow> int \<Rightarrow> error + pydict" where
  "getitem self idx =
     ebind (list_getitem (self_source self) idx)
       (\<lambda>src. ebind (list_getitem (self_source_txt self) idx)
       (\<lambda>src_txt.
          case self_target_txt self of
            None \<Rightarrow> Inr [(''src'', src), (''src_txt'', src_txt)]
          | Some tt \<Rightarrow>
              (case self_target self of
                 None \<Rightarrow> Inl AttributeError
               | Some t \<Rightarrow>
                   ebind (list_getitem t idx)
                     (\<lambda>tgt. ebind (list_getitem tt idx)
                     (\<lambda>tgt_txt. Inr [(''src'', src), (''src_txt'', src_txt),
                                     (''tgt'', tgt), (''tgt_txt'', tgt_txt)])))))"

definition len :: "summarization_dataset \<Rightarrow> nat" where
  "len self = length (self_source self)"

definition get_source :: "summarization_dataset \<Rightarrow> pyval list" where
  "get_source self = self_source self"

definition get_source_txt :: "summarization_dataset \<Rightarrow> pyval list" where
  "get_source_txt self = self_source_txt self"

definition get_target_txt :: "summarization_dataset \<Rightarrow> pyval list option" where
  "get_target_txt self = self_target_txt self"

definition get_target :: "summarization_dataset \<Rightarrow> error + pyval list" where
  "get_target self =
     (case self_target self of None \<Rightarrow> Inl AttributeError | Some t \<Rightarrow> Inr t)"

text \<open>
  \<^verbatim>\<open>
  def save_to_jsonl(self, output_file):
      with jsonlines.open(output_file, mode="w") as writer:
          if self._target_txt is None:
              for src in self._source:
                  writer.write({"src": src})
          else:
              for src, tgt in zip(self._source, self._target):
                  writer.write({"src": src, "tgt": tgt})
  \<close>
  The writer is the \<open>jsonlines\<close> library's: every \<open>write(obj)\<close> appends one line,
  the text of \<open>json.dumps(obj)\<close>, and reading the file back line by line is
  \<open>json.loads\<close> of every line. The text of a line is the library's matter; what the
  model keeps of a line is the JSON value that the text denotes. JSON has one kind of
  array: \<open>dumps\<close> writes a list and a tuple alike as an array, and \<open>loads\<close> reads an
  array as a list. The values of the model hold no dictionary, so an object occurs only
  as a whole line.
\<close>

datatype json = JNull | JNumber int | JString string | JArray "json list"

fun dumps :: "pyval \<Rightarrow> json" where
  "dumps PNone = JNull"
| "dumps (PInt n) = JNumber n"
| "dumps (PStr s) = JString s"
| "dumps (PList xs) = JArray (map dumps xs)"
| "dumps (PTuple xs) = JArray (map dumps xs)"

fun loads :: "json \<Rightarrow> pyval" where
  "loads JNull = PNone"
| "loads (JNumber n) = PInt n"
| "loads (JString s) = PStr s"
| "loads (JArray js) = PList (map loads js)"

type_synonym json_object = "(string \<times> json) list"

definition save_to_jsonl :: "summarization_dataset \<Rightarrow> error + json_object list" where
  "save_to_jsonl self =
     (case self_target_txt self of
        None \<Rightarrow> Inr (map (\<lambda>src. [(''src'', dumps src)]) (self_source self))
      | Some tt \<Rightarrow>
          (case self_target self of
             None \<Rightarrow> Inl AttributeError
           | Some t \<Rightarrow>
               Inr (map (\<lambda>(src, tgt). [(''src'', dumps src), (''tgt'', dumps tgt)])
                      (zip (self_source self) t))))"

text \<open>Reading the file back, line by line, as JSON: one dictionary for every line.\<close>

definition read_jsonl :: "json_object list \<Rightarrow> pydict list" where
  "read_jsonl written = map (map (\<lambda>(field, j). (field, loads j))) written"

section \<open>The streaming dataset\<close>

text \<open>
  \<^verbatim>\<open>
  def _line_iter(file_path):
      with open(file_path, "r", encoding="utf8") as fd:
          for line in fd:
              yield line
  \<close>
  A generator: the file is opened by the first \<open>next\<close>, not by the call. Its state is
  the path it has still to open, the lines it has still to yield, or that it is over.
  \<open>None\<close> is \<open>StopIteration\<close>.
\<close>

datatype reader = Unopened string | Opened "string list" | Closed

fun line_iter_next :: "filesystem \<Rightarrow> reader \<Rightarrow> (error + string) option \<times> reader" where
  "line_iter_next fs (Unopened file_path) =
     (case fs file_path of
        None \<Rightarrow> (Some (Inl FileNotFoundError), Closed)
      | Some [] \<Rightarrow> (None, Closed)
      | Some (line # rest) \<Rightarrow> (Some (Inr line), Opened rest))"
| "line_iter_next fs (Opened []) = (None, Closed)"
| "line_iter_next fs (Opened (line # rest)) = (Some (Inr line), Opened rest)"
| "line_iter_next fs Closed = (None, Closed)"

text \<open>
  \<^verbatim>\<open>
  def _create_data_from_iterator(iterator, preprocessing, word_tokenize):
      for line in iterator:
          yield _preprocess(sentences=line, preprocess_pipeline=preprocessing,
                            word_tokenize=word_tokenize)
  \<close>
  The iterator is the line reader, under \<open>itertools.islice(source_iter, top_n)\<close> when
  \<open>top_n != -1\<close>: \<open>gen_limit\<close> is the number of lines \<open>islice\<close> will still let
  through, and an \<open>islice\<close> that has let them all through stops without asking the
  reader. A generator that has stopped or raised is over for good.
\<close>

record data_generator =
  gen_reader :: reader
  gen_limit :: "nat option"
  gen_preprocessing :: "pyfun list option"
  gen_word_tokenize :: "pyfun option"

definition gen_next :: "filesystem \<Rightarrow> data_generator \<Rightarrow> (error + pyval) option \<times> data_generator" where
  "gen_next fs g =
     (if gen_limit g = Some 0 then (None, g\<lparr>gen_reader := Closed\<rparr>)
      else
        (case line_iter_next fs (gen_reader g) of
           (None, r) \<Rightarrow> (None, g\<lparr>gen_reader := Closed\<rparr>)
         | (Some (Inl e), r) \<Rightarrow> (Some (Inl e), g\<lparr>gen_reader := Closed\<rparr>)
         | (Some (Inr line), r) \<Rightarrow>
             (case preprocess (gen_preprocessing g) (gen_word_tokenize g) (PStr line) of
                Inl e \<Rightarrow> (Some (Inl e), g\<lparr>gen_reader := Closed\<rparr>)
              | Inr x \<Rightarrow>
                  (Some (Inr x),
                   g\<lparr>gen_reader := r, gen_limit := map_option (\<lambda>k. k - 1) (gen_limit g)\<rparr>))))"

fun reader_size :: "filesystem \<Rightarrow> reader \<Rightarrow> nat" where
  "reader_size fs (Unopened file_path) =
     (case fs file_path of None \<Rightarrow> 0 | Some lines \<Rightarrow> length lines)"
| "reader_size fs (Opened lines) = length lines"
| "reader_size fs Closed = 0"

text \<open>
  One pass of a \<open>for\<close> loop over the generator, to its end: the items it yields, the
  exception that ended the pass if one did, and the generator afterwards.
\<close>

function drain :: "filesystem \<Rightarrow> data_generator \<Rightarrow> pyval list \<times> error option \<times> data_generator" where
  "drain fs g =
     (case gen_next fs g of
        (None, g') \<Rightarrow> ([], None, g')
      | (Some (Inl e), g') \<Rightarrow> ([], Some e, g')
      | (Some (Inr x), g') \<Rightarrow>
          (case drain fs g' of (xs, err, g'') \<Rightarrow> (x # xs, err, g'')))"
  by pat_completeness auto
termination
proof (relation "measure (\<lambda>(fs, g). reader_size fs (gen_reader g))")
  show "wf (measure (\<lambda>(fs, g). reader_size fs (gen_reader g)))"
    by simp
next
  fix fs :: filesystem and g :: data_generator and x1 g' and x xa
  assume step: "(x1, g') = gen_next fs g" "x1 = Some x" "x = Inr xa"
  have "reader_size fs (gen_reader g') < reader_size fs (gen_reader g)"
  proof (cases "gen_reader g")
    case (Unopened file_path)
    with step show ?thesis
      by (auto simp: gen_next_def split: if_splits option.splits list.splits sum.splits)
  next
    case (Opened lines)
    with step show ?thesis
      by (cases lines) (auto simp: gen_next_def split: if_splits option.splits sum.splits)
  next
    case Closed
    with step show ?thesis
      by (auto simp: gen_next_def split: if_splits)
  qed
  then show "((fs, g'), fs, g) \<in> measure (\<lambda>(fs, g). reader_size fs (gen_reader g))"
    by simp
qed

declare drain.simps [simp del]

text \<open>
  \<^verbatim>\<open>
  def __init__(self, source_file, target_file=None, source_preprocessing=None,
               target_preprocessing=None, word_tokenization=None, top_n=-1):
      source_iter = _line_iter(source_file)
      if top_n != -1:
          source_iter = itertools.islice(source_iter, top_n)
      self._source = _create_data_from_iterator(
          source_iter, source_preprocessing, word_tokenization)
      if target_file:
          ... the same for the target ...
      else:
          self._target = None

  def __iter__(self):
      for x in self._source:
          yield x
  \<close>
\<close>

record iterable_summarization_dataset =
  it_source :: data_generator
  it_target :: "data_generator option"

definition iterable_summarization_dataset_init ::
  "string \<Rightarrow> string option \<Rightarrow> pyfun list option \<Rightarrow> pyfun list option \<Rightarrow> pyfun option \<Rightarrow> int
     \<Rightarrow> error + iterable_summarization_dataset" where
  "iterable_summarization_dataset_init src_file tgt_file src_preprocessing tgt_preprocessing
       word_tokenization n =
     ebind (if n \<noteq> - 1 then ebind (islice_stop n) (\<lambda>k. Inr (Some k)) else Inr None)
       (\<lambda>limit.
          Inr \<lparr>it_source =
                 \<lparr>gen_reader = Unopened src_file, gen_limit = limit,
                  gen_preprocessing = src_preprocessing,
                  gen_word_tokenize = word_tokenization\<rparr>,
               it_target =
                 (case tgt_file of
                    None \<Rightarrow> None
                  | Some path \<Rightarrow>
                      if path \<noteq> [] then
                        Some \<lparr>gen_reader = Unopened path, gen_limit = limit,
                              gen_preprocessing = tgt_preprocessing,
                              gen_word_tokenize = word_tokenization\<rparr>
                      else None)\<rparr>)"

text \<open>
  Every call of \<open>__iter__\<close> makes a new generator over the one \<open>self._source\<close>; running
  it to its end runs \<open>self._source\<close> to its end.
\<close>

definition iterate ::
  "filesystem \<Rightarrow> iterable_summarization_dataset
     \<Rightarrow> pyval list \<times> error option \<times> iterable_summarization_dataset" where
  "iterate fs self =
     (case drain fs (it_source self) of
        (xs, err, g) \<Rightarrow> (xs, err, self\<lparr>it_source := g\<rparr>))"

section \<open>Vocabulary of the properties\<close>

text \<open>
  A pool for the examples: every function can be pickled, and of several failures the
  one of the earliest batch reports first.
\<close>

definition plain_pool :: pool_env where
  "plain_pool = \<lparr>picklable = \<lambda>f. True, arrives_first = \<lambda>failed. 0\<rparr>"

text \<open>
  A materialized dataset is an instance that a constructor call has returned, after
  any number of \<open>shorten\<close> calls that returned.
\<close>

inductive materialized :: "summarization_dataset \<Rightarrow> bool" where
  constructed: "summarization_dataset_init fs pool cpu_count a = Inr self \<Longrightarrow> materialized self"
| shortened: "materialized self \<Longrightarrow> shorten bound self = Inr self' \<Longrightarrow> materialized self'"

text \<open>
  The filtering in the words of the specification: a result is empty when its processed
  component, or the result itself when nothing is tokenized, has length 0; the empty
  results are dropped and what is left keeps its order. \<open>component k x\<close> is \<open>x[k]\<close>
  where that exists.
\<close>

definition result_empty :: "pyfun option \<Rightarrow> pyval \<Rightarrow> bool" where
  "result_empty tokenizer x =
     (case tokenizer of
        None \<Rightarrow> py_len x = Inr 0
      | Some tok \<Rightarrow> ebind (py_getitem x 0) py_len = Inr 0)"

definition component :: "int \<Rightarrow> pyval \<Rightarrow> pyval" where
  "component k x = (case py_getitem x k of Inr y \<Rightarrow> y | Inl e \<Rightarrow> PNone)"

definition drop_empty :: "pyfun option \<Rightarrow> pyval list \<Rightarrow> pyval list \<Rightarrow> pyval list \<times> pyval list" where
  "drop_empty tokenizer txt result =
     (let kept = filter (\<lambda>x. \<not> result_empty tokenizer x) result
      in case tokenizer of
           None \<Rightarrow> (txt, kept)
         | Some tok \<Rightarrow> (map (component 0) kept, map (component 1) kept))"

text \<open>
  What a value is after a passage through JSON: every tuple in it has become a list.
  A value without tuples is unchanged.
\<close>

fun listify :: "pyval \<Rightarrow> pyval" where
  "listify PNone = PNone"
| "listify (PInt n) = PInt n"
| "listify (PStr s) = PStr s"
| "listify (PList xs) = PList (map listify xs)"
| "listify (PTuple xs) = PList (map listify xs)"

fun tuple_free :: "pyval \<Rightarrow> bool" where
  "tuple_free PNone = True"
| "tuple_free (PInt n) = True"
| "tuple_free (PStr s) = True"
| "tuple_free (PList xs) = list_all tuple_free xs"
| "tuple_free (PTuple xs) = False"

text \<open>The positions of the results that are kept, in order.\<close>

definition kept_indices :: "pyfun option \<Rightarrow> pyval list \<Rightarrow> nat list" where
  "kept_indices tokenizer result =
     filter (\<lambda>k. \<not> result_empty tokenizer (result ! k)) [0..<length result]"

text \<open>
  Applying a function to lines one after the other until one application raises: the
  values before the exception, and the exception.
\<close>

fun run_lines :: "pyfun \<Rightarrow> string list \<Rightarrow> pyval list \<times> error option" where
  "run_lines f [] = ([], None)"
| "run_lines f (line # rest) =
     (case f (PStr line) of
        Inl e \<Rightarrow> ([], Some e)
      | Inr x \<Rightarrow> (case run_lines f rest of (xs, err) \<Rightarrow> (x # xs, err)))"

text \<open>The lines a streaming dataset is capped to.\<close>

definition capped :: "int \<Rightarrow> 'a list \<Rightarrow> 'a list" where
  "capped n lines = (if n = - 1 then lines else take (nat n) lines)"

section \<open>Sequencing and the pool\<close>

lemma ebind_Inl: "ebind (Inl e) f = Inl e"
  by (simp add: ebind_def)

lemma ebind_Inr: "ebind (Inr x) f = f x"
  by (simp add: ebind_def)

lemma ebind_eq_Inr: "ebind m f = Inr y \<longleftrightarrow> (\<exists>x. m = Inr x \<and> f x = Inr y)"
  by (cases m) (simp_all add: ebind_def)

text \<open>
  The sequential loop in terms of the outcomes of its items: it returns what they
  return when none fails, and raises the first failure otherwise.
\<close>

lemma mapM_outcomes:
  "mapM f xs =
     (if failures (map f xs) = [] then Inr (successes (map f xs))
      else Inl (hd (failures (map f xs))))"
  by (induction xs) (auto split: sum.splits)

lemma get_tasks_one: "get_tasks (Suc 0) xs = map (\<lambda>x. [x]) xs"
  by (induction xs) (simp_all add: get_tasks.simps)

text \<open>With batches of one item, the batches fail and return as their items do.\<close>

lemma failures_singletons:
  "failures (map (mapM f \<circ> (\<lambda>x. [x])) xs) = failures (map f xs)"
  by (induction xs) (auto split: sum.splits)

lemma successes_singletons:
  "concat (successes (map (mapM f \<circ> (\<lambda>x. [x])) xs)) = successes (map f xs)"
  by (induction xs) (auto split: sum.splits)

lemma mapM_Inr_iff:
  "mapM f xs = Inr ys \<longleftrightarrow>
     length ys = length xs \<and> (\<forall>i<length xs. f (xs ! i) = Inr (ys ! i))"
proof (induction xs arbitrary: ys)
  case Nil
  then show ?case by auto
next
  case (Cons x xs)
  show ?case
  proof (cases ys)
    case Nil
    then show ?thesis by (auto split: sum.splits)
  next
    case (Cons y ys')
    then show ?thesis using Cons.IH [of ys']
      by (auto split: sum.splits nat.splits
               simp: nth_Cons less_Suc_eq_0_disj all_conj_distrib)
  qed
qed

lemma chunksize_of_one:
  assumes "1 \<le> p" and "p \<le> int n"
  shows "chunksize_of n p = Inr 1"
proof -
  from assms have "0 < int n div p"
    by (simp add: pos_imp_zdiv_pos_iff)
  then have "min 1 (int n div p) = 1"
    by simp
  moreover from assms have "sgn (int n) = 1" "sgn p = 1" "\<bar>p\<bar> = p"
    by simp_all
  ultimately show ?thesis using assms
    by (simp add: chunksize_of_def int_truediv_def ebind_def)
qed

lemma pool_arguments_eq:
  "pool_arguments cpu n num_pool =
     (if resolve_num_pool cpu n num_pool < 1 then Inl ValueError
      else Inr (nat (resolve_num_pool cpu n num_pool), 1))"
proof (cases "resolve_num_pool cpu n num_pool < 1")
  case True
  then show ?thesis by (simp add: pool_arguments_def Pool_def ebind_def)
next
  case False
  moreover have "resolve_num_pool cpu n num_pool \<le> int n"
    by (simp add: resolve_num_pool_def)
  ultimately have "chunksize_of n (resolve_num_pool cpu n num_pool) = Inr 1"
    by (intro chunksize_of_one) simp_all
  with False show ?thesis by (simp add: pool_arguments_def Pool_def ebind_def)
qed

lemma parallel_preprocess_eq:
  "parallel_preprocess pool cpu xs pp wt num_pool =
     (if resolve_num_pool cpu (length xs) num_pool < 1 then Inl ValueError
      else if \<not> partial_picklable (picklable pool) pp wt then Inl PicklingError
      else if failures (map (preprocess pp wt) xs) = []
        then Inr (successes (map (preprocess pp wt) xs))
      else Inl (failures (map (preprocess pp wt) xs)
                 ! (arrives_first pool (failures (map (preprocess pp wt) xs))
                      mod length (failures (map (preprocess pp wt) xs)))))"
  by (simp add: parallel_preprocess_def pool_arguments_eq pool_map_def ebind_def Let_def
        get_tasks_one failures_singletons successes_singletons)

lemma parallel_preprocess_Inr_iff:
  assumes "1 \<le> resolve_num_pool cpu (length xs) num_pool"
      and "partial_picklable (picklable pool) pp wt"
  shows "parallel_preprocess pool cpu xs pp wt num_pool = Inr result
           \<longleftrightarrow> mapM (preprocess pp wt) xs = Inr result"
  using assms by (auto simp: parallel_preprocess_eq mapM_outcomes)

lemma mapM_total:
  "(\<forall>x\<in>set xs. \<exists>y. f x = Inr y) \<Longrightarrow> \<exists>ys. mapM f xs = Inr ys"
  by (induction xs) auto

text \<open>
  Claim C1. With \<open>num_pool = -1\<close> on a machine with at least one CPU, a non-empty input
  and a pipeline and tokenizer that can be pickled, \<open>parallel_preprocess\<close> returns a
  list exactly when the sequential loop of \<open>_preprocess\<close> over the input does, and the
  same list: it has the input's length and its element \<open>i\<close> is \<open>_preprocess\<close> of the
  input's element \<open>i\<close>, with the same pipeline and tokenizer. It does return when
  \<open>_preprocess\<close> returns on every item.
\<close>

theorem parallel_preprocess_sequential:
  assumes "input_data \<noteq> []" and "1 \<le> cpu_count"
      and "partial_picklable (picklable pool) pp wt"
  shows "(\<forall>results. parallel_preprocess pool cpu_count input_data pp wt (- 1) = Inr results
            \<longleftrightarrow> mapM (preprocess pp wt) input_data = Inr results)
       \<and> (\<forall>results. parallel_preprocess pool cpu_count input_data pp wt (- 1) = Inr results \<longrightarrow>
            length results = length input_data
          \<and> (\<forall>i<length input_data. preprocess pp wt (input_data ! i) = Inr (results ! i)))
       \<and> ((\<forall>x\<in>set input_data. \<exists>y. preprocess pp wt x = Inr y) \<longrightarrow>
            (\<exists>results. parallel_preprocess pool cpu_count input_data pp wt (- 1) = Inr results))"
proof -
  from assms(1,2) have "1 \<le> resolve_num_pool cpu_count (length input_data) (- 1)"
    by (cases input_data) (simp_all add: resolve_num_pool_def)
  then have eq: "parallel_preprocess pool cpu_count input_data pp wt (- 1) = Inr results
                   \<longleftrightarrow> mapM (preprocess pp wt) input_data = Inr results" for results
    using assms(3) by (rule parallel_preprocess_Inr_iff)
  have "\<exists>results. parallel_preprocess pool cpu_count input_data pp wt (- 1) = Inr results"
    if "\<forall>x\<in>set input_data. \<exists>y. preprocess pp wt x = Inr y"
    using mapM_total [OF that] by (simp add: eq)
  then show ?thesis
    by (simp add: eq mapM_Inr_iff)
qed

theorem parallel_preprocess_sequential_witness:
  "[PStr ''a b'', PStr ''c''] \<noteq> [] \<and> (1::int) \<le> 4
   \<and> partial_picklable (picklable plain_pool) (Some [\<lambda>x. Inr (PList [x])])
         (Some (\<lambda>s. Inr (PList [s])))
   \<and> parallel_preprocess plain_pool 4 [PStr ''a b'', PStr ''c''] (Some [\<lambda>x. Inr (PList [x])])
         (Some (\<lambda>s. Inr (PList [s]))) (- 1)
       = Inr [PTuple [PList [PStr ''a b''], PList [PList [PStr ''a b'']]],
              PTuple [PList [PStr ''c''], PList [PList [PStr ''c'']]]]"
proof -
  let ?pp = "Some [\<lambda>x. Inr (PList [x])]"
  let ?wt = "Some (\<lambda>s. Inr (PList [s]))"
  have can: "partial_picklable (picklable plain_pool) ?pp ?wt"
    by (simp add: partial_picklable_def plain_pool_def)
  have "mapM (preprocess ?pp ?wt) [PStr ''a b'', PStr ''c'']
          = Inr [PTuple [PList [PStr ''a b''], PList [PList [PStr ''a b'']]],
                 PTuple [PList [PStr ''c''], PList [PList [PStr ''c'']]]]"
    by (simp add: preprocess_def ebind_def)
  with parallel_preprocess_sequential [of "[PStr ''a b'', PStr ''c'']" 4 plain_pool ?pp ?wt] can
  show ?thesis by simp
qed

text \<open>
  Claim C2. On the empty list the pool size is \<open>min(num_pool, 0)\<close>, which is at most 0
  whatever \<open>num_pool\<close> and the number of CPUs are, so \<open>Pool\<close> raises \<open>ValueError\<close>:
  the function does not return the empty list.
\<close>

theorem parallel_preprocess_empty_raises:
  "parallel_preprocess pool cpu_count [] pp wt num_pool = Inl ValueError"
proof -
  have "resolve_num_pool cpu_count (length ([] :: pyval list)) num_pool < 1"
    by (simp add: resolve_num_pool_def min_def)
  then show ?thesis
    by (simp add: parallel_preprocess_eq)
qed

text \<open>
  Claim C8. Whenever \<open>parallel_preprocess\<close> gets as far as the \<open>map\<close> call on a non-empty
  input, the chunk size it passes is at least 1; and it gets that far, with chunk size 1,
  whenever the worker count, resolved and clamped to the input's length, is at least 1.
\<close>

theorem chunksize_at_least_one:
  assumes "input_data \<noteq> []"
  shows "(\<forall>p c. pool_arguments cpu_count (length input_data) num_pool = Inr (p, c) \<longrightarrow> 1 \<le> c)
       \<and> (1 \<le> resolve_num_pool cpu_count (length input_data) num_pool \<longrightarrow>
            pool_arguments cpu_count (length input_data) num_pool
              = Inr (nat (resolve_num_pool cpu_count (length input_data) num_pool), 1))"
  by (simp add: pool_arguments_eq)

theorem chunksize_at_least_one_witness:
  "[PStr ''a''] \<noteq> [] \<and> pool_arguments 8 (length [PStr ''a'']) (- 1) = Inr (1, 1)"
  using chunksize_at_least_one [of "[PStr ''a'']" 8 "- 1"]
  by (simp add: resolve_num_pool_def)

section \<open>The constructor of the materialized dataset\<close>

lemma py_iter_len: "py_iter s = Inr ss \<Longrightarrow> py_len s = Inr (length ss)"
  by (cases s) auto

lemma preprocess_tokenized_shape:
  assumes "preprocess pp (Some tok) l = Inr x"
  shows "\<exists>s ts. x = PTuple [s, PList ts] \<and> py_len s = Inr (length ts)"
proof -
  from assms obtain s ss ts where
    it: "py_iter s = Inr ss" and toks: "mapM tok ss = Inr ts" and x: "x = PTuple [s, PList ts]"
    by (auto simp: preprocess_def ebind_eq_Inr)
  from toks have "length ts = length ss" by (simp add: mapM_Inr_iff)
  with it x show ?thesis by (auto dest: py_iter_len)
qed

lemma filter_map_total:
  assumes "\<And>x. x \<in> set xs \<Longrightarrow> p x = Inr (P x)"
      and "\<And>x. x \<in> set xs \<Longrightarrow> P x \<Longrightarrow> f x = Inr (F x)"
  shows "filter_map p f xs = Inr (map F (filter P xs))"
  using assms by (induction xs) auto

lemma filter_map_tests_defined:
  "filter_map p f xs = Inr ys \<Longrightarrow> x \<in> set xs \<Longrightarrow> \<exists>b. p x = Inr b"
  by (induction xs arbitrary: ys) (auto split: sum.splits if_splits)

lemma mapM_results:
  assumes "mapM f xs = Inr ys" and "y \<in> set ys"
  shows "\<exists>x. f x = Inr y"
proof -
  from assms(2) obtain i where "i < length ys" "ys ! i = y"
    by (auto simp: in_set_conv_nth)
  with assms(1) show ?thesis
    by (auto simp: mapM_Inr_iff)
qed

lemma keep_results_drop_empty:
  assumes res: "mapM (preprocess pp wt) ls = Inr result"
      and keep: "keep_results wt txt result = Inr (t, p)"
  shows "(t, p) = drop_empty wt txt result"
proof (cases wt)
  case None
  from keep None have fm: "filter_map value_nonempty Inr result = Inr p" and t: "t = txt"
    by (auto simp: keep_results_def ebind_eq_Inr)
  have "value_nonempty x = Inr (\<not> result_empty None x)" if "x \<in> set result" for x
  proof -
    from filter_map_tests_defined [OF fm that] obtain b where "value_nonempty x = Inr b" ..
    then show ?thesis
      by (auto simp: value_nonempty_def result_empty_def ebind_eq_Inr)
  qed
  then have "filter_map value_nonempty Inr result
               = Inr (map (\<lambda>x. x) (filter (\<lambda>x. \<not> result_empty None x) result))"
    by (intro filter_map_total) simp_all
  with fm t None show ?thesis by (simp add: drop_empty_def)
next
  case (Some tok)
  have shape: "\<exists>s ts. x = PTuple [s, PList ts] \<and> py_len s = Inr (length ts)"
    if "x \<in> set result" for x
  proof -
    from mapM_results [OF res that] Some obtain l where "preprocess pp (Some tok) l = Inr x"
      by auto
    then show ?thesis by (rule preprocess_tokenized_shape)
  qed
  have t0: "component_nonempty 0 x = Inr (\<not> result_empty (Some tok) x)"
    and t1: "component_nonempty 1 x = Inr (\<not> result_empty (Some tok) x)"
    and g0: "py_getitem x 0 = Inr (component 0 x)"
    and g1: "py_getitem x 1 = Inr (component 1 x)"
    if "x \<in> set result" for x
    using shape [OF that]
    by (auto simp: component_nonempty_def result_empty_def component_def list_getitem_def
                   ebind_def)
  have "filter_map (component_nonempty 0) (\<lambda>x. py_getitem x 0) result
          = Inr (map (component 0) (filter (\<lambda>x. \<not> result_empty (Some tok) x) result))"
    by (intro filter_map_total) (simp_all add: t0 g0)
  moreover have "filter_map (component_nonempty 1) (\<lambda>x. py_getitem x 1) result
          = Inr (map (component 1) (filter (\<lambda>x. \<not> result_empty (Some tok) x) result))"
    by (intro filter_map_total) (simp_all add: t1 g1)
  ultimately show ?thesis using keep Some
    by (simp add: keep_results_def drop_empty_def ebind_def)
qed

lemma init_Inr:
  assumes "summarization_dataset_init fs pool cpu a = Inr ds"
  obtains src_lines tgt_lines result where
    "load_txt fs (source_file a) (source a) (top_n a) = Inr src_lines"
    "load_txt fs (target_file a) (target a) (top_n a) = Inr tgt_lines"
    "tgt_lines \<noteq> [] \<longrightarrow> length src_lines = length tgt_lines"
    "parallel_preprocess pool cpu (map PStr src_lines) (source_preprocessing a) (word_tokenize a)
        (n_processes a) = Inr result"
    "keep_results (word_tokenize a) (map PStr src_lines) result
        = Inr (self_source_txt ds, self_source ds)"
    "tgt_lines = [] \<longrightarrow> self_target_txt ds = None \<and> self_target ds = None"
    "tgt_lines \<noteq> [] \<longrightarrow>
       (\<exists>result' ttxt t.
          parallel_preprocess pool cpu (map PStr tgt_lines) (target_preprocessing a) (word_tokenize a)
            (n_processes a) = Inr result'
        \<and> keep_results (word_tokenize a) (map PStr tgt_lines) result' = Inr (ttxt, t)
        \<and> self_target_txt ds = Some ttxt \<and> self_target ds = Some t)"
  using assms
  unfolding summarization_dataset_init_def ebind_eq_Inr Let_def
  by (auto split: if_splits option.splits prod.splits simp: ebind_eq_Inr)

lemma parallel_preprocess_Inr:
  "parallel_preprocess pool cpu xs pp wt n = Inr result \<Longrightarrow> mapM (preprocess pp wt) xs = Inr result"
  by (auto simp: parallel_preprocess_eq mapM_outcomes split: if_splits)

text \<open>
  Claim C6. When both corpora have been loaded (file lines, then the in-memory list), the
  target is not empty and the two have different numbers of lines, the constructor
  raises \<open>AssertionError\<close>; so it does on a source file of 3 lines with a target file
  of 2 lines.
\<close>

theorem init_length_mismatch_raises:
  assumes "load_txt fs (source_file a) (source a) (top_n a) = Inr source_lines"
      and "load_txt fs (target_file a) (target a) (top_n a) = Inr target_lines"
      and "target_lines \<noteq> []"
      and "length source_lines \<noteq> length target_lines"
  shows "summarization_dataset_init fs pool cpu_count a = Inl AssertionError"
  using assms by (simp add: summarization_dataset_init_def ebind_def)

theorem init_length_mismatch_raises_witness:
  "load_txt (\<lambda>p. if p = ''src.txt'' then Some [''a'', ''b'', ''c'']
                  else if p = ''tgt.txt'' then Some [''x'', ''y''] else None)
      (Some ''src.txt'') None (- 1) = Inr [''a'', ''b'', ''c'']
   \<and> load_txt (\<lambda>p. if p = ''src.txt'' then Some [''a'', ''b'', ''c'']
                  else if p = ''tgt.txt'' then Some [''x'', ''y''] else None)
      (Some ''tgt.txt'') None (- 1) = Inr [''x'', ''y'']
   \<and> summarization_dataset_init
        (\<lambda>p. if p = ''src.txt'' then Some [''a'', ''b'', ''c'']
              else if p = ''tgt.txt'' then Some [''x'', ''y''] else None) plain_pool 4
        \<lparr>source_file = Some ''src.txt'', source = None,
         target_file = Some ''tgt.txt'', target = None,
         source_preprocessing = None, target_preprocessing = None, word_tokenize = None,
         top_n = - 1, n_processes = - 1\<rparr>
       = Inl AssertionError"
proof -
  let ?fs = "\<lambda>p. if p = ''src.txt'' then Some [''a'', ''b'', ''c'']
                  else if p = ''tgt.txt'' then Some [''x'', ''y''] else None"
  let ?a = "\<lparr>source_file = Some ''src.txt'', source = None,
         target_file = Some ''tgt.txt'', target = None,
         source_preprocessing = None, target_preprocessing = None, word_tokenize = None,
         top_n = - 1, n_processes = - 1\<rparr>"
  have s: "load_txt ?fs (source_file ?a) (source ?a) (top_n ?a) = Inr [''a'', ''b'', ''c'']"
    by (simp add: load_txt_def ebind_def)
  have t: "load_txt ?fs (target_file ?a) (target ?a) (top_n ?a) = Inr [''x'', ''y'']"
    by (simp add: load_txt_def ebind_def)
  have "summarization_dataset_init ?fs plain_pool 4 ?a = Inl AssertionError"
    by (rule init_length_mismatch_raises [OF s t]) simp_all
  with s t show ?thesis by simp
qed

lemma init_drop_empty:
  assumes "summarization_dataset_init fs pool cpu_count a = Inr self"
  shows "(\<exists>source_lines result.
            load_txt fs (source_file a) (source a) (top_n a) = Inr source_lines
          \<and> parallel_preprocess pool cpu_count (map PStr source_lines) (source_preprocessing a)
                (word_tokenize a) (n_processes a) = Inr result
          \<and> (self_source_txt self, self_source self)
                = drop_empty (word_tokenize a) (map PStr source_lines) result)
       \<and> (case self_target_txt self of
            None \<Rightarrow>
              load_txt fs (target_file a) (target a) (top_n a) = Inr [] \<and> self_target self = None
          | Some tt \<Rightarrow>
              (\<exists>target_lines result' t.
                  load_txt fs (target_file a) (target a) (top_n a) = Inr target_lines
                \<and> parallel_preprocess pool cpu_count (map PStr target_lines) (target_preprocessing a)
                      (word_tokenize a) (n_processes a) = Inr result'
                \<and> self_target self = Some t
                \<and> (tt, t) = drop_empty (word_tokenize a) (map PStr target_lines) result'))"
proof -
  from assms obtain src_lines tgt_lines result where
    ls: "load_txt fs (source_file a) (source a) (top_n a) = Inr src_lines" and
    lt: "load_txt fs (target_file a) (target a) (top_n a) = Inr tgt_lines" and
    ps: "parallel_preprocess pool cpu_count (map PStr src_lines) (source_preprocessing a)
           (word_tokenize a) (n_processes a) = Inr result" and
    ks: "keep_results (word_tokenize a) (map PStr src_lines) result
           = Inr (self_source_txt self, self_source self)" and
    no: "tgt_lines = [] \<longrightarrow> self_target_txt self = None \<and> self_target self = None" and
    tg: "tgt_lines \<noteq> [] \<longrightarrow>
       (\<exists>result' ttxt t.
          parallel_preprocess pool cpu_count (map PStr tgt_lines) (target_preprocessing a)
            (word_tokenize a) (n_processes a) = Inr result'
        \<and> keep_results (word_tokenize a) (map PStr tgt_lines) result' = Inr (ttxt, t)
        \<and> self_target_txt self = Some ttxt \<and> self_target self = Some t)"
    by (rule init_Inr)
  have src: "(self_source_txt self, self_source self)
               = drop_empty (word_tokenize a) (map PStr src_lines) result"
    using parallel_preprocess_Inr [OF ps] ks by (rule keep_results_drop_empty)
  show ?thesis
  proof (cases "tgt_lines = []")
    case True
    with no lt ls ps src show ?thesis by auto
  next
    case False
    with tg obtain result' ttxt t where
      pt: "parallel_preprocess pool cpu_count (map PStr tgt_lines) (target_preprocessing a)
            (word_tokenize a) (n_processes a) = Inr result'" and
      kt: "keep_results (word_tokenize a) (map PStr tgt_lines) result' = Inr (ttxt, t)" and
      st: "self_target_txt self = Some ttxt" "self_target self = Some t"
      by blast
    have "(ttxt, t) = drop_empty (word_tokenize a) (map PStr tgt_lines) result'"
      using parallel_preprocess_Inr [OF pt] kt by (rule keep_results_drop_empty)
    with ls ps src lt pt st show ?thesis by auto
  qed
qed

text \<open>
  Claim C3. A constructor call that returns has dropped, from the processed source
  sequence, exactly the source results that are empty, and from the processed target
  sequence exactly the target results that are empty: each corpus is \<open>drop_empty\<close> of
  its own results, and neither looks at the other's. In the example the second source
  line and the third target line are dropped, so the pair at index 1 is made of the
  third source line and the second target line.
\<close>

theorem init_filters_each_corpus:
  assumes "summarization_dataset_init fs pool cpu_count a = Inr self"
  shows "(\<exists>source_lines result.
            load_txt fs (source_file a) (source a) (top_n a) = Inr source_lines
          \<and> parallel_preprocess pool cpu_count (map PStr source_lines) (source_preprocessing a)
                (word_tokenize a) (n_processes a) = Inr result
          \<and> (self_source_txt self, self_source self)
                = drop_empty (word_tokenize a) (map PStr source_lines) result)
       \<and> (case self_target_txt self of
            None \<Rightarrow>
              load_txt fs (target_file a) (target a) (top_n a) = Inr [] \<and> self_target self = None
          | Some tt \<Rightarrow>
              (\<exists>target_lines result' t.
                  load_txt fs (target_file a) (target a) (top_n a) = Inr target_lines
                \<and> parallel_preprocess pool cpu_count (map PStr target_lines) (target_preprocessing a)
                      (word_tokenize a) (n_processes a) = Inr result'
                \<and> self_target self = Some t
                \<and> (tt, t) = drop_empty (word_tokenize a) (map PStr target_lines) result'))"
  using assms by (rule init_drop_empty)

theorem init_filters_each_corpus_witness:
  "summarization_dataset_init (\<lambda>p. None) plain_pool 2
     \<lparr>source_file = None, source = Some [''a'', '''', ''c''],
      target_file = None, target = Some [''x'', ''y'', ''''],
      source_preprocessing = None, target_preprocessing = None, word_tokenize = None,
      top_n = - 1, n_processes = - 1\<rparr>
   = Inr \<lparr>self_source_txt = [PStr ''a'', PStr '''', PStr ''c''],
          self_source = [PStr ''a'', PStr ''c''],
          self_target_txt = Some [PStr ''x'', PStr ''y'', PStr ''''],
          self_target = Some [PStr ''x'', PStr ''y'']\<rparr>
   \<and> drop_empty None [PStr ''a'', PStr '''', PStr ''c''] [PStr ''a'', PStr '''', PStr ''c'']
       = ([PStr ''a'', PStr '''', PStr ''c''], [PStr ''a'', PStr ''c''])"
proof -
  let ?a = "\<lparr>source_file = None, source = Some [''a'', '''', ''c''],
      target_file = None, target = Some [''x'', ''y'', ''''],
      source_preprocessing = None, target_preprocessing = None, word_tokenize = None,
      top_n = - 1, n_processes = - 1\<rparr>"
  let ?ds = "\<lparr>self_source_txt = [PStr ''a'', PStr '''', PStr ''c''],
          self_source = [PStr ''a'', PStr ''c''],
          self_target_txt = Some [PStr ''x'', PStr ''y'', PStr ''''],
          self_target = Some [PStr ''x'', PStr ''y'']\<rparr>"
  have built: "summarization_dataset_init (\<lambda>p. None) plain_pool 2 ?a = Inr ?ds"
    by (simp add: summarization_dataset_init_def load_txt_def parallel_preprocess_eq plain_pool_def partial_picklable_def
          resolve_num_pool_def preprocess_def keep_results_def value_nonempty_def ebind_def)
  from init_filters_each_corpus [OF built] have
    "\<exists>source_lines result.
        load_txt (\<lambda>p. None) (source_file ?a) (source ?a) (top_n ?a) = Inr source_lines
      \<and> parallel_preprocess plain_pool 2 (map PStr source_lines) (source_preprocessing ?a)
            (word_tokenize ?a) (n_processes ?a) = Inr result
      \<and> (self_source_txt ?ds, self_source ?ds)
            = drop_empty (word_tokenize ?a) (map PStr source_lines) result"
    by (rule conjunct1)
  then have "drop_empty None [PStr ''a'', PStr '''', PStr ''c''] [PStr ''a'', PStr '''', PStr ''c'']
       = ([PStr ''a'', PStr '''', PStr ''c''], [PStr ''a'', PStr ''c''])"
    by (auto simp: load_txt_def parallel_preprocess_eq plain_pool_def partial_picklable_def resolve_num_pool_def preprocess_def
          ebind_def)
  with built show ?thesis by simp
qed

lemma slice_to_length_mono:
  "length xs \<le> length ys \<Longrightarrow> length (slice_to xs n) \<le> length (slice_to ys n)"
  by (auto simp: slice_to_def)

lemma materialized_lengths:
  assumes "materialized self"
  shows "length (self_source self) \<le> length (self_source_txt self)
       \<and> (case self_target_txt self of
            None \<Rightarrow> self_target self = None
          | Some tt \<Rightarrow> (\<exists>t. self_target self = Some t \<and> length t \<le> length tt))"
  using assms
proof (induction rule: materialized.induct)
  case (constructed fs pool cpu_count a self)
  have len: "length p \<le> length t"
    if "parallel_preprocess pool cpu_count (map PStr ls) pp wt n = Inr result"
       "(t, p) = drop_empty wt (map PStr ls) result" for t p ls pp wt n result
  proof -
    from that(1) have "length result = length ls"
      by (auto dest!: parallel_preprocess_Inr simp: mapM_Inr_iff)
    with that(2) show ?thesis
      by (cases wt) (auto simp: drop_empty_def Let_def intro: order_trans [OF length_filter_le])
  qed
  from init_drop_empty [OF constructed] show ?case
    by (auto split: option.splits dest: len)
next
  case (shortened self bound self')
  then show ?case
    by (auto simp: shorten_def Let_def slice_to_length_mono split: option.splits if_splits)
qed

section \<open>The methods of the materialized dataset\<close>

lemma list_getitem_nat:
  "i < length xs \<Longrightarrow> list_getitem xs (int i) = Inr (xs ! i)"
  by (simp add: list_getitem_def)

lemma slice_to_nonneg: "0 \<le> n \<Longrightarrow> slice_to xs n = take (nat n) xs"
  by (simp add: slice_to_def)

lemma shorten_in_range:
  assumes m: "materialized self" and n: "0 \<le> n" "n \<le> int (len self)"
  shows "\<exists>self'. shorten (Some n) self = Inr self'
              \<and> len self' = nat n
              \<and> self_source self' = take (nat n) (self_source self)
              \<and> self_source_txt self' = take (nat n) (self_source_txt self)
              \<and> self_target self' = map_option (take (nat n)) (self_target self)
              \<and> self_target_txt self' = map_option (take (nat n)) (self_target_txt self)
              \<and> shorten (Some n) self' = Inr self'"
proof (cases "self_target_txt self")
  case None
  with materialized_lengths [OF m] have t: "self_target self = None" by simp
  from n have le: "nat n \<le> length (self_source self)" by (simp add: len_def)
  from n le None t show ?thesis
    by (simp add: shorten_def Let_def len_def slice_to_nonneg min_def)
next
  case (Some tt)
  with materialized_lengths [OF m] obtain t where t: "self_target self = Some t" by auto
  from n have le: "nat n \<le> length (self_source self)" by (simp add: len_def)
  from n le Some t show ?thesis
    by (simp add: shorten_def Let_def len_def slice_to_nonneg min_def)
qed

lemma save_records_no_target:
  assumes "self_target_txt self = None" and "length (self_source self) \<le> length (self_source_txt self)"
      and "i < length (self_source self)"
  shows "getitem self (int i)
           = Inr [(''src'', self_source self ! i), (''src_txt'', self_source_txt self ! i)]"
  using assms by (simp_all add: getitem_def list_getitem_nat ebind_def)

lemma save_records_target:
  assumes "self_target_txt self = Some tt" and "self_target self = Some t"
      and "length (self_source self) \<le> length (self_source_txt self)"
      and "length t \<le> length tt"
      and "i < length (self_source self)" and "i < length t"
  shows "getitem self (int i)
           = Inr [(''src'', self_source self ! i), (''src_txt'', self_source_txt self ! i),
                  (''tgt'', t ! i), (''tgt_txt'', tt ! i)]"
  using assms by (simp_all add: getitem_def list_getitem_nat ebind_def)

text \<open>
  Claim C4, amended. On a materialized dataset of length \<open>L\<close>, \<open>shorten(n)\<close> with
  \<open>0 \<le> n \<le> L\<close> returns, leaves the length at exactly \<open>n\<close>, keeps of every
  sequence the instance owns its first \<open>n\<close> entries in order, and changes nothing
  when called again with the same bound; with \<open>n > L\<close> or no bound the instance is
  returned as it is. The method returns \<open>self\<close>, which is the instance the model
  returns. As the claim is written it also covers a negative \<open>n\<close>, where the slice
  \<open>[0:n]\<close> counts from the end: \<open>shorten(-1)\<close> on three entries leaves two, and one
  when it is called again.
\<close>

theorem shorten_first_entries:
  assumes "materialized self"
  shows "(\<forall>n. 0 \<le> n \<and> n \<le> int (len self) \<longrightarrow>
            (\<exists>self'. shorten (Some n) self = Inr self'
              \<and> len self' = nat n
              \<and> self_source self' = take (nat n) (self_source self)
              \<and> self_source_txt self' = take (nat n) (self_source_txt self)
              \<and> self_target self' = map_option (take (nat n)) (self_target self)
              \<and> self_target_txt self' = map_option (take (nat n)) (self_target_txt self)
              \<and> shorten (Some n) self' = Inr self'))
       \<and> (\<forall>n. int (len self) < n \<longrightarrow> shorten (Some n) self = Inr self)
       \<and> shorten None self = Inr self"
proof (intro conjI allI impI)
  fix n assume "0 \<le> n \<and> n \<le> int (len self)"
  with assms show "\<exists>self'. shorten (Some n) self = Inr self'
              \<and> len self' = nat n
              \<and> self_source self' = take (nat n) (self_source self)
              \<and> self_source_txt self' = take (nat n) (self_source_txt self)
              \<and> self_target self' = map_option (take (nat n)) (self_target self)
              \<and> self_target_txt self' = map_option (take (nat n)) (self_target_txt self)
              \<and> shorten (Some n) self' = Inr self'"
    by (intro shorten_in_range) simp_all
next
  fix n assume "int (len self) < n"
  then show "shorten (Some n) self = Inr self"
    by (simp add: shorten_def len_def)
next
  show "shorten None self = Inr self"
    by (simp add: shorten_def)
qed

theorem shorten_first_entries_witness:
  "materialized \<lparr>self_source_txt = [PStr ''a'', PStr ''b'', PStr ''c''],
                 self_source = [PStr ''a'', PStr ''b'', PStr ''c''],
                 self_target_txt = Some [PStr ''x'', PStr ''y'', PStr ''z''],
                 self_target = Some [PStr ''x'', PStr ''y'', PStr ''z'']\<rparr>
   \<and> shorten (Some 2)
         \<lparr>self_source_txt = [PStr ''a'', PStr ''b'', PStr ''c''],
          self_source = [PStr ''a'', PStr ''b'', PStr ''c''],
          self_target_txt = Some [PStr ''x'', PStr ''y'', PStr ''z''],
          self_target = Some [PStr ''x'', PStr ''y'', PStr ''z'']\<rparr>
       = Inr \<lparr>self_source_txt = [PStr ''a'', PStr ''b''],
              self_source = [PStr ''a'', PStr ''b''],
              self_target_txt = Some [PStr ''x'', PStr ''y''],
              self_target = Some [PStr ''x'', PStr ''y'']\<rparr>
   \<and> shorten (Some 2)
         \<lparr>self_source_txt = [PStr ''a'', PStr ''b''],
          self_source = [PStr ''a'', PStr ''b''],
          self_target_txt = Some [PStr ''x'', PStr ''y''],
          self_target = Some [PStr ''x'', PStr ''y'']\<rparr>
       = Inr \<lparr>self_source_txt = [PStr ''a'', PStr ''b''],
              self_source = [PStr ''a'', PStr ''b''],
              self_target_txt = Some [PStr ''x'', PStr ''y''],
              self_target = Some [PStr ''x'', PStr ''y'']\<rparr>
   \<and> shorten (Some 4)
         \<lparr>self_source_txt = [PStr ''a'', PStr ''b'', PStr ''c''],
          self_source = [PStr ''a'', PStr ''b'', PStr ''c''],
          self_target_txt = Some [PStr ''x'', PStr ''y'', PStr ''z''],
          self_target = Some [PStr ''x'', PStr ''y'', PStr ''z'']\<rparr>
       = Inr \<lparr>self_source_txt = [PStr ''a'', PStr ''b'', PStr ''c''],
              self_source = [PStr ''a'', PStr ''b'', PStr ''c''],
              self_target_txt = Some [PStr ''x'', PStr ''y'', PStr ''z''],
              self_target = Some [PStr ''x'', PStr ''y'', PStr ''z'']\<rparr>"
proof -
  let ?a = "\<lparr>source_file = None, source = Some [''a'', ''b'', ''c''],
             target_file = None, target = Some [''x'', ''y'', ''z''],
             source_preprocessing = None, target_preprocessing = None, word_tokenize = None,
             top_n = - 1, n_processes = - 1\<rparr>"
  let ?d = "\<lparr>self_source_txt = [PStr ''a'', PStr ''b'', PStr ''c''],
             self_source = [PStr ''a'', PStr ''b'', PStr ''c''],
             self_target_txt = Some [PStr ''x'', PStr ''y'', PStr ''z''],
             self_target = Some [PStr ''x'', PStr ''y'', PStr ''z'']\<rparr>"
  have "summarization_dataset_init (\<lambda>p. None) plain_pool 1 ?a = Inr ?d"
    by (simp add: summarization_dataset_init_def load_txt_def parallel_preprocess_eq plain_pool_def partial_picklable_def
          resolve_num_pool_def preprocess_def keep_results_def value_nonempty_def ebind_def)
  then have m: "materialized ?d"
    by (rule constructed)
  have two: "(0::int) \<le> 2 \<and> 2 \<le> int (len ?d)" and four: "int (len ?d) < 4"
    by (simp_all add: len_def)
  from shorten_first_entries [OF m] two obtain d' where
    "shorten (Some 2) ?d = Inr d'"
    "self_source d' = take (nat 2) (self_source ?d)"
    "self_source_txt d' = take (nat 2) (self_source_txt ?d)"
    "self_target d' = map_option (take (nat 2)) (self_target ?d)"
    "self_target_txt d' = map_option (take (nat 2)) (self_target_txt ?d)"
    "shorten (Some 2) d' = Inr d'"
    by blast
  moreover from this have "d' = \<lparr>self_source_txt = [PStr ''a'', PStr ''b''],
              self_source = [PStr ''a'', PStr ''b''],
              self_target_txt = Some [PStr ''x'', PStr ''y''],
              self_target = Some [PStr ''x'', PStr ''y'']\<rparr>"
    by (cases d') (simp add: numeral_2_eq_2)
  moreover from shorten_first_entries [OF m] four have "shorten (Some 4) ?d = Inr ?d"
    by blast
  ultimately show ?thesis using m by simp
qed

theorem shorten_negative_counterexample:
  "summarization_dataset_init (\<lambda>p. None) plain_pool 1
     \<lparr>source_file = None, source = Some [''a'', ''b'', ''c''],
      target_file = None, target = None,
      source_preprocessing = None, target_preprocessing = None, word_tokenize = None,
      top_n = - 1, n_processes = - 1\<rparr>
     = Inr \<lparr>self_source_txt = [PStr ''a'', PStr ''b'', PStr ''c''],
            self_source = [PStr ''a'', PStr ''b'', PStr ''c''],
            self_target_txt = None, self_target = None\<rparr>
   \<and> (- 1 :: int) \<le> int (len \<lparr>self_source_txt = [PStr ''a'', PStr ''b'', PStr ''c''],
            self_source = [PStr ''a'', PStr ''b'', PStr ''c''],
            self_target_txt = None, self_target = None\<rparr>)
   \<and> shorten (Some (- 1))
        \<lparr>self_source_txt = [PStr ''a'', PStr ''b'', PStr ''c''],
         self_source = [PStr ''a'', PStr ''b'', PStr ''c''],
         self_target_txt = None, self_target = None\<rparr>
     = Inr \<lparr>self_source_txt = [PStr ''a'', PStr ''b''],
            self_source = [PStr ''a'', PStr ''b''],
            self_target_txt = None, self_target = None\<rparr>
   \<and> len \<lparr>self_source_txt = [PStr ''a'', PStr ''b''],
            self_source = [PStr ''a'', PStr ''b''],
            self_target_txt = None, self_target = None\<rparr> = 2
   \<and> shorten (Some (- 1))
        \<lparr>self_source_txt = [PStr ''a'', PStr ''b''],
         self_source = [PStr ''a'', PStr ''b''],
         self_target_txt = None, self_target = None\<rparr>
     = Inr \<lparr>self_source_txt = [PStr ''a''],
            self_source = [PStr ''a''],
            self_target_txt = None, self_target = None\<rparr>"
  by (simp add: summarization_dataset_init_def load_txt_def parallel_preprocess_eq plain_pool_def partial_picklable_def
        resolve_num_pool_def preprocess_def keep_results_def value_nonempty_def ebind_def
        shorten_def slice_to_def len_def)

lemma loads_dumps: "loads (dumps x) = listify x"
  by (induction x) simp_all

lemma listify_tuple_free: "tuple_free x \<Longrightarrow> listify x = x"
  by (induction x) (simp_all add: list_all_iff map_idI)

text \<open>
  Claim C5, amended. On a materialized dataset \<open>save_to_jsonl\<close> writes, in index order,
  one record for every index below the length of the processed source and, when there
  is a target, below the length of the processed target too (\<open>zip\<close> stops at the
  shorter one), which is \<open>length()\<close> records when there is no target or the processed
  target is at least as long as the processed source. Record \<open>i\<close> holds under \<open>src\<close>,
  and under \<open>tgt\<close> when there is a target, the JSON encoding of what \<open>get(i)\<close> holds
  there, and no other field. Reading the file back gives, for record \<open>i\<close>, these
  fields with the values of \<open>get(i)\<close> in which every tuple has become a list: the
  values of \<open>get(i)\<close> themselves where they hold no tuple.

  As the claim is written it fails in two places. Where the constructor has dropped
  more target results than source results there are fewer records than \<open>length()\<close>:
  two source entries, one target entry, one record. And a processed value that is a
  tuple (here the pipeline returns one) is read back as a list, which is not the value
  \<open>get(0)\<close> returns.
\<close>

theorem save_to_jsonl_records:
  assumes "materialized self"
  shows "\<exists>written. save_to_jsonl self = Inr written
     \<and> length written
         = (case self_target self of None \<Rightarrow> len self | Some t \<Rightarrow> min (len self) (length t))
     \<and> (\<forall>i<length written. \<exists>item. getitem self (int i) = Inr item
            \<and> map_of item ''src'' = Some (get_source self ! i)
            \<and> map fst (written ! i)
                 = (if self_target_txt self = None then [''src''] else [''src'', ''tgt''])
            \<and> map_of (written ! i) ''src'' = map_option dumps (map_of item ''src'')
            \<and> map_of (written ! i) ''tgt'' = map_option dumps (map_of item ''tgt'')
            \<and> map fst (read_jsonl written ! i) = map fst (written ! i)
            \<and> map_of (read_jsonl written ! i) ''src'' = map_option listify (map_of item ''src'')
            \<and> map_of (read_jsonl written ! i) ''tgt'' = map_option listify (map_of item ''tgt'')
            \<and> (tuple_free (get_source self ! i) \<longrightarrow>
                  map_of (read_jsonl written ! i) ''src'' = map_of item ''src'')
            \<and> ((case self_target self of None \<Rightarrow> True | Some t \<Rightarrow> tuple_free (t ! i)) \<longrightarrow>
                  map_of (read_jsonl written ! i) ''tgt'' = map_of item ''tgt''))"
proof (cases "self_target_txt self")
  case None
  with materialized_lengths [OF assms] have
    t: "self_target self = None" and le: "length (self_source self) \<le> length (self_source_txt self)"
    by simp_all
  have "save_to_jsonl self = Inr (map (\<lambda>src. [(''src'', dumps src)]) (self_source self))"
    using None by (simp add: save_to_jsonl_def)
  with None t le show ?thesis
    by (simp add: len_def get_source_def save_records_no_target read_jsonl_def loads_dumps
          listify_tuple_free)
next
  case (Some tt)
  with materialized_lengths [OF assms] obtain t where
    t: "self_target self = Some t" "length t \<le> length tt"
    and le: "length (self_source self) \<le> length (self_source_txt self)"
    by auto
  have "save_to_jsonl self
          = Inr (map (\<lambda>(src, tgt). [(''src'', dumps src), (''tgt'', dumps tgt)])
                   (zip (self_source self) t))"
    using Some t by (simp add: save_to_jsonl_def)
  with Some t le show ?thesis
    by (simp add: len_def get_source_def save_records_target read_jsonl_def loads_dumps
          listify_tuple_free)
qed

theorem save_to_jsonl_records_witness:
  "materialized \<lparr>self_source_txt = [PStr ''a'', PStr ''b''],
                 self_source = [PStr ''a'', PStr ''b''],
                 self_target_txt = Some [PStr ''x'', PStr ''y''],
                 self_target = Some [PStr ''x'', PStr ''y'']\<rparr>
   \<and> (\<exists>written.
         save_to_jsonl \<lparr>self_source_txt = [PStr ''a'', PStr ''b''],
                        self_source = [PStr ''a'', PStr ''b''],
                        self_target_txt = Some [PStr ''x'', PStr ''y''],
                        self_target = Some [PStr ''x'', PStr ''y'']\<rparr> = Inr written
       \<and> written = [[(''src'', JString ''a''), (''tgt'', JString ''x'')],
                     [(''src'', JString ''b''), (''tgt'', JString ''y'')]]
       \<and> length written = 2
       \<and> read_jsonl written = [[(''src'', PStr ''a''), (''tgt'', PStr ''x'')],
                               [(''src'', PStr ''b''), (''tgt'', PStr ''y'')]])"
proof -
  let ?a = "\<lparr>source_file = None, source = Some [''a'', ''b''],
             target_file = None, target = Some [''x'', ''y''],
             source_preprocessing = None, target_preprocessing = None, word_tokenize = None,
             top_n = - 1, n_processes = - 1\<rparr>"
  let ?d = "\<lparr>self_source_txt = [PStr ''a'', PStr ''b''],
             self_source = [PStr ''a'', PStr ''b''],
             self_target_txt = Some [PStr ''x'', PStr ''y''],
             self_target = Some [PStr ''x'', PStr ''y'']\<rparr>"
  have "summarization_dataset_init (\<lambda>p. None) plain_pool 1 ?a = Inr ?d"
    by (simp add: summarization_dataset_init_def load_txt_def parallel_preprocess_eq
          plain_pool_def partial_picklable_def
          resolve_num_pool_def preprocess_def keep_results_def value_nonempty_def ebind_def)
  then have m: "materialized ?d"
    by (rule constructed)
  from save_to_jsonl_records [OF m] obtain written where
    r: "save_to_jsonl ?d = Inr written"
       "length written
          = (case self_target ?d of None \<Rightarrow> len ?d | Some t \<Rightarrow> min (len ?d) (length t))"
    by blast
  from r(1) have w: "written = [[(''src'', JString ''a''), (''tgt'', JString ''x'')],
                                [(''src'', JString ''b''), (''tgt'', JString ''y'')]]"
    by (simp add: save_to_jsonl_def)
  moreover from r(2) have "length written = 2"
    by (simp add: len_def)
  moreover from w have "read_jsonl written = [[(''src'', PStr ''a''), (''tgt'', PStr ''x'')],
                                              [(''src'', PStr ''b''), (''tgt'', PStr ''y'')]]"
    by (simp add: read_jsonl_def)
  ultimately show ?thesis using m r(1) by simp
qed

theorem save_to_jsonl_counterexample:
  "summarization_dataset_init (\<lambda>p. None) plain_pool 1
     \<lparr>source_file = None, source = Some [''a'', ''b''],
      target_file = None, target = Some [''x'', []],
      source_preprocessing = None, target_preprocessing = None, word_tokenize = None,
      top_n = - 1, n_processes = - 1\<rparr>
     = Inr \<lparr>self_source_txt = [PStr ''a'', PStr ''b''],
            self_source = [PStr ''a'', PStr ''b''],
            self_target_txt = Some [PStr ''x'', PStr []],
            self_target = Some [PStr ''x'']\<rparr>
   \<and> len \<lparr>self_source_txt = [PStr ''a'', PStr ''b''],
            self_source = [PStr ''a'', PStr ''b''],
            self_target_txt = Some [PStr ''x'', PStr []],
            self_target = Some [PStr ''x'']\<rparr> = 2
   \<and> save_to_jsonl \<lparr>self_source_txt = [PStr ''a'', PStr ''b''],
            self_source = [PStr ''a'', PStr ''b''],
            self_target_txt = Some [PStr ''x'', PStr []],
            self_target = Some [PStr ''x'']\<rparr>
       = Inr [[(''src'', JString ''a''), (''tgt'', JString ''x'')]]
   \<and> getitem \<lparr>self_source_txt = [PStr ''a'', PStr ''b''],
            self_source = [PStr ''a'', PStr ''b''],
            self_target_txt = Some [PStr ''x'', PStr []],
            self_target = Some [PStr ''x'']\<rparr> 1 = Inl IndexError
   \<and> summarization_dataset_init (\<lambda>p. None) plain_pool 1
     \<lparr>source_file = None, source = Some [''a''],
      target_file = None, target = None,
      source_preprocessing = Some [\<lambda>x. Inr (PTuple [x])], target_preprocessing = None,
      word_tokenize = None, top_n = - 1, n_processes = - 1\<rparr>
     = Inr \<lparr>self_source_txt = [PStr ''a''],
            self_source = [PTuple [PStr ''a'']],
            self_target_txt = None, self_target = None\<rparr>
   \<and> getitem \<lparr>self_source_txt = [PStr ''a''],
               self_source = [PTuple [PStr ''a'']],
               self_target_txt = None, self_target = None\<rparr> 0
       = Inr [(''src'', PTuple [PStr ''a'']), (''src_txt'', PStr ''a'')]
   \<and> save_to_jsonl \<lparr>self_source_txt = [PStr ''a''],
                     self_source = [PTuple [PStr ''a'']],
                     self_target_txt = None, self_target = None\<rparr>
       = Inr [[(''src'', JArray [JString ''a''])]]
   \<and> read_jsonl [[(''src'', JArray [JString ''a''])]] = [[(''src'', PList [PStr ''a''])]]
   \<and> PList [PStr ''a''] \<noteq> PTuple [PStr ''a'']"
  by (simp add: summarization_dataset_init_def load_txt_def parallel_preprocess_eq
        plain_pool_def partial_picklable_def
        resolve_num_pool_def preprocess_def keep_results_def value_nonempty_def ebind_def
        save_to_jsonl_def read_jsonl_def getitem_def list_getitem_def len_def)

text \<open>
  Claim C10. A constructor call without target lines returns an instance on which
  \<open>get_target()\<close> raises \<open>AttributeError\<close>, while \<open>get(i)\<close> returns for every index
  that the processed source has, counted from either end, and \<open>save_to_jsonl\<close> writes
  \<open>length()\<close> records.
\<close>

theorem no_target_get_target_raises:
  assumes "summarization_dataset_init fs pool cpu_count a = Inr self"
      and "load_txt fs (target_file a) (target a) (top_n a) = Inr []"
  shows "get_target self = Inl AttributeError
       \<and> (\<forall>idx. - int (len self) \<le> idx \<and> idx < int (len self) \<longrightarrow>
            (\<exists>item. getitem self idx = Inr item))
       \<and> (\<exists>records. save_to_jsonl self = Inr records \<and> length records = len self)"
proof -
  from assms(1) obtain tgt_lines where
    "load_txt fs (target_file a) (target a) (top_n a) = Inr tgt_lines"
    "tgt_lines = [] \<longrightarrow> self_target_txt self = None \<and> self_target self = None"
    by (rule init_Inr)
  with assms(2) have none: "self_target_txt self = None" "self_target self = None"
    by simp_all
  from assms(1) have "materialized self"
    by (rule constructed)
  then have le: "length (self_source self) \<le> length (self_source_txt self)"
    by (simp add: materialized_lengths)
  have "\<exists>item. getitem self idx = Inr item"
    if "- int (len self) \<le> idx \<and> idx < int (len self)" for idx
    using that none le by (simp add: getitem_def list_getitem_def len_def ebind_def)
  with none show ?thesis
    by (simp add: get_target_def save_to_jsonl_def len_def)
qed

theorem no_target_get_target_raises_witness:
  "summarization_dataset_init (\<lambda>p. None) plain_pool 1
     \<lparr>source_file = None, source = Some [''a'', ''b''],
      target_file = None, target = None,
      source_preprocessing = None, target_preprocessing = None, word_tokenize = None,
      top_n = - 1, n_processes = - 1\<rparr>
     = Inr \<lparr>self_source_txt = [PStr ''a'', PStr ''b''],
            self_source = [PStr ''a'', PStr ''b''],
            self_target_txt = None, self_target = None\<rparr>
   \<and> load_txt (\<lambda>p. None) None None (- 1) = Inr []
   \<and> get_target \<lparr>self_source_txt = [PStr ''a'', PStr ''b''],
                  self_source = [PStr ''a'', PStr ''b''],
                  self_target_txt = None, self_target = None\<rparr> = Inl AttributeError
   \<and> getitem \<lparr>self_source_txt = [PStr ''a'', PStr ''b''],
               self_source = [PStr ''a'', PStr ''b''],
               self_target_txt = None, self_target = None\<rparr> 1
       = Inr [(''src'', PStr ''b''), (''src_txt'', PStr ''b'')]"
proof -
  let ?a = "\<lparr>source_file = None, source = Some [''a'', ''b''],
      target_file = None, target = None,
      source_preprocessing = None, target_preprocessing = None, word_tokenize = None,
      top_n = - 1, n_processes = - 1\<rparr>"
  let ?d = "\<lparr>self_source_txt = [PStr ''a'', PStr ''b''],
            self_source = [PStr ''a'', PStr ''b''],
            self_target_txt = None, self_target = None\<rparr>"
  have built: "summarization_dataset_init (\<lambda>p. None) plain_pool 1 ?a = Inr ?d"
    by (simp add: summarization_dataset_init_def load_txt_def parallel_preprocess_eq plain_pool_def partial_picklable_def
          resolve_num_pool_def preprocess_def keep_results_def value_nonempty_def ebind_def)
  have empty: "load_txt (\<lambda>p. None) (target_file ?a) (target ?a) (top_n ?a) = Inr []"
    by (simp add: load_txt_def ebind_def)
  from no_target_get_target_raises [OF built empty]
  have "get_target ?d = Inl AttributeError"
    by (rule conjunct1)
  moreover have "getitem ?d 1 = Inr [(''src'', PStr ''b''), (''src_txt'', PStr ''b'')]"
    by (simp add: getitem_def list_getitem_def ebind_def)
  ultimately show ?thesis using built empty by simp
qed

section \<open>The streaming dataset's single pass\<close>

lemma closed_reader_update: "gen_reader g = Closed \<Longrightarrow> g\<lparr>gen_reader := Closed\<rparr> = g"
  by (cases g) simp

lemma drain_closed: "gen_reader g = Closed \<Longrightarrow> drain fs g = ([], None, g)"
  by (subst drain.simps) (simp add: gen_next_def closed_reader_update)

lemma drain_opened:
  "gen_reader g = Opened ls \<Longrightarrow>
   \<exists>g'. drain fs g
          = (fst (run_lines (preprocess (gen_preprocessing g) (gen_word_tokenize g))
                    (case gen_limit g of None \<Rightarrow> ls | Some k \<Rightarrow> take k ls)),
             snd (run_lines (preprocess (gen_preprocessing g) (gen_word_tokenize g))
                    (case gen_limit g of None \<Rightarrow> ls | Some k \<Rightarrow> take k ls)),
             g')
        \<and> gen_reader g' = Closed"
proof (induction ls arbitrary: g)
  case Nil
  then show ?case
    by (subst drain.simps) (auto simp: gen_next_def split: option.splits)
next
  case (Cons l rest)
  let ?f = "preprocess (gen_preprocessing g) (gen_word_tokenize g)"
  show ?case
  proof (cases "gen_limit g = Some 0")
    case True
    then show ?thesis
      by (subst drain.simps) (simp add: gen_next_def)
  next
    case False
    show ?thesis
    proof (cases "?f (PStr l)")
      case (Inl e)
      with False Cons.prems show ?thesis
        by (subst drain.simps) (auto simp: gen_next_def take_Cons' split: option.splits)
    next
      case (Inr x)
      define g2 where "g2 = g\<lparr>gen_reader := Opened rest,
                                 gen_limit := map_option (\<lambda>k. k - 1) (gen_limit g)\<rparr>"
      define R where "R = run_lines ?f (case gen_limit g2 of None \<Rightarrow> rest | Some k \<Rightarrow> take k rest)"
      have step: "gen_next fs g = (Some (Inr x), g2)"
        using False Cons.prems Inr by (simp add: gen_next_def g2_def)
      have g2: "gen_reader g2 = Opened rest" "gen_preprocessing g2 = gen_preprocessing g"
          "gen_word_tokenize g2 = gen_word_tokenize g"
        by (simp_all add: g2_def)
      from Cons.IH [OF g2(1)] obtain g' where
        rec: "drain fs g2 = (fst R, snd R, g')" and closed: "gen_reader g' = Closed"
        unfolding g2(2,3) R_def by auto
      have lines: "(case gen_limit g of None \<Rightarrow> l # rest | Some k \<Rightarrow> take k (l # rest))
                     = l # (case gen_limit g2 of None \<Rightarrow> rest | Some k \<Rightarrow> take k rest)"
        using False by (auto simp: take_Cons' g2_def split: option.splits)
      have "drain fs g = (case drain fs g2 of (xs, err, g'') \<Rightarrow> (x # xs, err, g''))"
        by (subst drain.simps) (simp only: step prod.case option.case sum.case)
      then have "drain fs g = (x # fst R, snd R, g')"
        by (simp only: rec prod.case)
      moreover have "run_lines ?f (l # (case gen_limit g2 of None \<Rightarrow> rest | Some k \<Rightarrow> take k rest))
                       = (x # fst R, snd R)"
        using Inr by (simp add: R_def split_beta)
      ultimately show ?thesis
        using closed unfolding lines by simp
    qed
  qed
qed

lemma gen_next_unopened:
  "gen_reader g = Unopened path \<Longrightarrow> fs path = Some ls \<Longrightarrow>
   gen_next fs g = gen_next fs (g\<lparr>gen_reader := Opened ls\<rparr>)"
  by (cases ls) (simp_all add: gen_next_def split: sum.splits)

lemma drain_unopened:
  assumes "gen_reader g = Unopened path" and "fs path = Some ls"
  shows "drain fs g = drain fs (g\<lparr>gen_reader := Opened ls\<rparr>)"
proof -
  have "drain fs g =
     (case gen_next fs (g\<lparr>gen_reader := Opened ls\<rparr>) of
        (None, g') \<Rightarrow> ([], None, g')
      | (Some (Inl e), g') \<Rightarrow> ([], Some e, g')
      | (Some (Inr x), g') \<Rightarrow>
          (case drain fs g' of (xs, err, g'') \<Rightarrow> (x # xs, err, g'')))"
    by (subst drain.simps) (simp only: gen_next_unopened [of g path fs ls, OF assms])
  also have "\<dots> = drain fs (g\<lparr>gen_reader := Opened ls\<rparr>)"
    by (subst (2) drain.simps) simp
  finally show ?thesis .
qed

lemma run_lines_mapM:
  "mapM f (map PStr ls) = Inr rs \<Longrightarrow> run_lines f ls = (rs, None)"
  by (induction ls arbitrary: rs) (auto split: sum.splits)

lemma iterate_pass:
  assumes "iterable_summarization_dataset_init path tgt sp tp wt n = Inr self"
      and "fs path = Some lines"
  shows "\<exists>self'. iterate fs self
            = (fst (run_lines (preprocess sp wt) (capped n lines)),
               snd (run_lines (preprocess sp wt) (capped n lines)), self')
         \<and> iterate fs self' = ([], None, self')"
proof -
  let ?g = "it_source self"
  from assms(1) have g: "gen_reader ?g = Unopened path" "gen_preprocessing ?g = sp"
      "gen_word_tokenize ?g = wt"
      "gen_limit ?g = (if n = - 1 then None else Some (nat n))"
    by (auto simp: iterable_summarization_dataset_init_def ebind_eq_Inr islice_stop_def
             split: if_splits)
  let ?o = "?g\<lparr>gen_reader := Opened lines\<rparr>"
  have "gen_reader ?o = Opened lines" by simp
  from drain_opened [OF this, of fs] g obtain g' where
    d: "drain fs ?o = (fst (run_lines (preprocess sp wt) (capped n lines)),
                       snd (run_lines (preprocess sp wt) (capped n lines)), g')"
    and c: "gen_reader g' = Closed"
    by (auto simp: capped_def)
  from d have "drain fs ?g = (fst (run_lines (preprocess sp wt) (capped n lines)),
                       snd (run_lines (preprocess sp wt) (capped n lines)), g')"
    by (simp add: drain_unopened [of ?g path fs lines, OF g(1) assms(2)])
  then have first: "iterate fs self
            = (fst (run_lines (preprocess sp wt) (capped n lines)),
               snd (run_lines (preprocess sp wt) (capped n lines)), self\<lparr>it_source := g'\<rparr>)"
    by (simp add: iterate_def)
  have "iterate fs (self\<lparr>it_source := g'\<rparr>) = ([], None, self\<lparr>it_source := g'\<rparr>)"
    by (simp add: iterate_def drain_closed [OF c])
  with first show ?thesis by blast
qed

text \<open>
  Claim C7. A streaming dataset built over an existing source file yields, in one pass
  over the instance, \<open>_preprocess\<close> of the file's lines in file order, of the first
  \<open>top_n\<close> lines only when \<open>top_n != -1\<close>, each once (up to the first line on which
  \<open>_preprocess\<close> raises, if there is one); a second pass over the same instance
  yields nothing.
\<close>

theorem iterate_single_pass:
  assumes "iterable_summarization_dataset_init path tgt sp tp wt n = Inr self"
      and "fs path = Some lines"
  shows "\<exists>items err self'.
           iterate fs self = (items, err, self')
         \<and> (items, err) = run_lines (preprocess sp wt) (capped n lines)
         \<and> (\<forall>results. mapM (preprocess sp wt) (map PStr (capped n lines)) = Inr results \<longrightarrow>
               items = results \<and> err = None)
         \<and> iterate fs self' = ([], None, self')"
proof -
  from iterate_pass [of path tgt sp tp wt n self fs lines, OF assms] obtain self' where
    "iterate fs self
       = (fst (run_lines (preprocess sp wt) (capped n lines)),
          snd (run_lines (preprocess sp wt) (capped n lines)), self')"
    "iterate fs self' = ([], None, self')"
    by blast
  then show ?thesis
    by (auto dest: run_lines_mapM)
qed


theorem iterate_single_pass_witness:
  "iterable_summarization_dataset_init ''src.txt'' None (Some [\<lambda>x. Inr (PList [x])]) None None 2
     = Inr \<lparr>it_source = \<lparr>gen_reader = Unopened ''src.txt'', gen_limit = Some 2,
                          gen_preprocessing = Some [\<lambda>x. Inr (PList [x])],
                          gen_word_tokenize = None\<rparr>,
            it_target = None\<rparr>
   \<and> (\<lambda>p. if p = ''src.txt'' then Some [''a'', ''b'', ''c''] else None) ''src.txt''
       = Some [''a'', ''b'', ''c'']
   \<and> (\<exists>self'.
         iterate (\<lambda>p. if p = ''src.txt'' then Some [''a'', ''b'', ''c''] else None)
           \<lparr>it_source = \<lparr>gen_reader = Unopened ''src.txt'', gen_limit = Some 2,
                          gen_preprocessing = Some [\<lambda>x. Inr (PList [x])],
                          gen_word_tokenize = None\<rparr>,
            it_target = None\<rparr>
           = ([PList [PStr ''a''], PList [PStr ''b'']], None, self')
       \<and> iterate (\<lambda>p. if p = ''src.txt'' then Some [''a'', ''b'', ''c''] else None) self'
           = ([], None, self'))"
proof -
  let ?fs = "\<lambda>p. if p = ''src.txt'' then Some [''a'', ''b'', ''c''] else None"
  let ?sp = "Some [\<lambda>x. Inr (PList [x])]"
  let ?d = "\<lparr>it_source = \<lparr>gen_reader = Unopened ''src.txt'', gen_limit = Some 2,
                          gen_preprocessing = ?sp, gen_word_tokenize = None\<rparr>,
            it_target = None\<rparr>"
  have built: "iterable_summarization_dataset_init ''src.txt'' None ?sp None None 2 = Inr ?d"
    by (simp add: iterable_summarization_dataset_init_def islice_stop_def sys_maxsize_def
          ebind_def)
  have exists: "?fs ''src.txt'' = Some [''a'', ''b'', ''c'']"
    by simp
  from iterate_single_pass [of "''src.txt''" None ?sp None None 2 ?d ?fs "[''a'', ''b'', ''c'']",
      OF built exists]
  obtain items err self' where
    p: "iterate ?fs ?d = (items, err, self')"
       "(items, err) = run_lines (preprocess ?sp None) (capped 2 [''a'', ''b'', ''c''])"
       "iterate ?fs self' = ([], None, self')"
    by blast
  have "run_lines (preprocess ?sp None) (capped 2 [''a'', ''b'', ''c''])
          = ([PList [PStr ''a''], PList [PStr ''b'']], None)"
    by (simp add: capped_def preprocess_def ebind_def numeral_2_eq_2)
  with p have "iterate ?fs ?d = ([PList [PStr ''a''], PList [PStr ''b'']], None, self')"
    by simp
  with p(3) built exists show ?thesis by blast
qed

section \<open>Where the kept results come from\<close>

lemma filter_by_index:
  "map ((!) xs) (filter (\<lambda>k. P (xs ! k)) [0..<length xs]) = filter P xs"
proof -
  have "filter P xs = filter P (map ((!) xs) [0..<length xs])"
    by (simp add: map_nth)
  also have "\<dots> = map ((!) xs) (filter (P \<circ> (!) xs) [0..<length xs])"
    by (simp only: filter_map)
  finally show ?thesis by (simp add: comp_def)
qed

lemma increasing_gap:
  fixes ks :: "nat list"
  assumes "sorted_wrt (<) ks"
  shows "i < length ks \<Longrightarrow> k \<le> i \<Longrightarrow> ks ! k + (i - k) \<le> ks ! i"
proof (induction i)
  case 0
  then show ?case by simp
next
  case (Suc i)
  show ?case
  proof (cases "k = Suc i")
    case True
    then show ?thesis by simp
  next
    case False
    with Suc.prems have "k \<le> i" "i < length ks" by simp_all
    with Suc.IH have "ks ! k + (i - k) \<le> ks ! i" by simp
    moreover from assms Suc.prems have "ks ! i < ks ! Suc i"
      by (simp add: sorted_wrt_nth_less)
    ultimately show ?thesis using \<open>k \<le> i\<close> by simp
  qed
qed

lemma kept_indices_sorted: "sorted_wrt (<) (kept_indices wt result)"
  unfolding kept_indices_def by (rule sorted_wrt_filter) simp

lemma kept_indices_past:
  assumes i: "i < length (kept_indices wt result)"
      and k: "k < i" and e: "result_empty wt (result ! k)"
  shows "i < kept_indices wt result ! i"
proof -
  let ?ks = "kept_indices wt result"
  from increasing_gap [OF kept_indices_sorted i, of 0] have ge: "i \<le> ?ks ! i"
    by simp
  have "?ks ! i \<noteq> i"
  proof
    assume eq: "?ks ! i = i"
    from increasing_gap [OF kept_indices_sorted i, of k] k eq have "?ks ! k \<le> k"
      by simp
    moreover from k i increasing_gap [OF kept_indices_sorted, of k wt result 0]
    have "k \<le> ?ks ! k" by simp
    ultimately have "?ks ! k = k" by simp
    moreover from k i have "?ks ! k \<in> set ?ks" by simp
    ultimately have "k \<in> set ?ks" by simp
    then have "\<not> result_empty wt (result ! k)"
      by (simp add: kept_indices_def)
    with e show False by simp
  qed
  with ge show ?thesis by simp
qed

lemma kept_indices_values:
  "map ((!) result) (kept_indices wt result) = filter (\<lambda>x. \<not> result_empty wt x) result"
  unfolding kept_indices_def by (rule filter_by_index)

lemma kept_indices_in_range:
  "i < length (kept_indices wt result) \<Longrightarrow> kept_indices wt result ! i < length result"
proof -
  assume "i < length (kept_indices wt result)"
  then have "kept_indices wt result ! i \<in> set (kept_indices wt result)" by simp
  then show ?thesis by (simp add: kept_indices_def)
qed

lemma length_filter_full:
  "length (filter P xs) = length xs \<longleftrightarrow> (\<forall>x\<in>set xs. P x)"
proof -
  have "length (filter P xs) + length (filter (\<lambda>x. \<not> P x) xs) = length xs"
    by (rule sum_length_filter_compl)
  then have "length (filter P xs) = length xs \<longleftrightarrow> filter (\<lambda>x. \<not> P x) xs = []"
    by auto
  then show ?thesis by (simp add: filter_empty_conv)
qed

lemma getitem_fields:
  assumes "getitem self (int i) = Inr item" and "i < length (self_source self)"
      and "length (self_source self) \<le> length (self_source_txt self)"
  shows "map_of item ''src'' = Some (self_source self ! i)
       \<and> map_of item ''src_txt'' = Some (self_source_txt self ! i)"
  using assms
  by (auto simp: getitem_def ebind_eq_Inr list_getitem_nat split: option.splits)

lemma getitem_returns:
  assumes "materialized self" and "i < length (self_source self)"
      and "case self_target self of None \<Rightarrow> True | Some t \<Rightarrow> i < length t"
  shows "\<exists>item. getitem self (int i) = Inr item"
proof (cases "self_target_txt self")
  case None
  with materialized_lengths [OF assms(1)] assms(2) show ?thesis
    by (simp add: save_records_no_target)
next
  case (Some tt)
  with materialized_lengths [OF assms(1)] obtain t where
    "self_target self = Some t" "length t \<le> length tt"
    "length (self_source self) \<le> length (self_source_txt self)"
    by auto
  with Some assms(2,3) show ?thesis
    by (simp add: save_records_target)
qed

lemma untokenized_init:
  assumes init: "summarization_dataset_init fs pool cpu_count a = Inr self"
      and wt: "word_tokenize a = None"
  obtains source_lines result where
    "load_txt fs (source_file a) (source a) (top_n a) = Inr source_lines"
    "parallel_preprocess pool cpu_count (map PStr source_lines) (source_preprocessing a) None
       (n_processes a) = Inr result"
    "self_source_txt self = map PStr source_lines"
    "self_source self = map ((!) result) (kept_indices None result)"
    "length result = length source_lines"
    "\<forall>j<length source_lines.
       preprocess (source_preprocessing a) None (PStr (source_lines ! j)) = Inr (result ! j)"
proof -
  from init_drop_empty [OF init] wt obtain source_lines result where
    ls: "load_txt fs (source_file a) (source a) (top_n a) = Inr source_lines" and
    ps: "parallel_preprocess pool cpu_count (map PStr source_lines) (source_preprocessing a) None
           (n_processes a) = Inr result" and
    de: "(self_source_txt self, self_source self) = drop_empty None (map PStr source_lines) result"
    by auto
  from de have rawtxt: "self_source_txt self = map PStr source_lines"
    and src: "self_source self = map ((!) result) (kept_indices None result)"
    by (simp_all add: drop_empty_def kept_indices_values)
  from parallel_preprocess_Inr [OF ps] have
    "length result = length source_lines"
    "\<forall>j<length source_lines.
       preprocess (source_preprocessing a) None (PStr (source_lines ! j)) = Inr (result ! j)"
    by (simp_all add: mapM_Inr_iff)
  with ls ps rawtxt src show ?thesis by (rule that)
qed

text \<open>
  Claim C9, amended. A constructor call without a tokenizer that returns leaves in
  \<open>get_source_txt()\<close> one entry for every line loaded, so \<open>get_source()\<close> is at most
  as long, and as long exactly when no source result is empty. Where a result at an
  original position \<open>k < i\<close> is empty, the processed value at position \<open>i\<close> is
  \<open>_preprocess\<close> of the line at a later original position \<open>j > i\<close>, while the raw
  entry at position \<open>i\<close> is the line at original position \<open>i\<close>; when there is no
  target, or the processed target has an entry at \<open>i\<close>, \<open>get(i)\<close> returns and pairs
  these two under \<open>src\<close> and \<open>src_txt\<close>.

  As the claim is written, \<open>get(i)\<close> makes this pair at every such \<open>i\<close>. It does not
  where the target has lost more results than the source: with the source lines
  \<open>''''\<close>, \<open>''b''\<close>, \<open>''c''\<close> and the target lines \<open>''x''\<close>, \<open>''''\<close>, \<open>''''\<close> the first
  source result is empty, the dataset has length 2, and \<open>get(1)\<close> raises
  \<open>IndexError\<close> on the one-entry processed target.
\<close>

theorem untokenized_source_txt_unfiltered:
  assumes "summarization_dataset_init fs pool cpu_count a = Inr self"
      and "word_tokenize a = None"
  shows "\<exists>source_lines result.
           load_txt fs (source_file a) (source a) (top_n a) = Inr source_lines
         \<and> parallel_preprocess pool cpu_count (map PStr source_lines) (source_preprocessing a) None
               (n_processes a) = Inr result
         \<and> get_source_txt self = map PStr source_lines
         \<and> length (get_source self) \<le> length (get_source_txt self)
         \<and> (length (get_source self) = length (get_source_txt self)
               \<longleftrightarrow> (\<forall>x\<in>set result. \<not> result_empty None x))
         \<and> (\<forall>i k. i < len self \<and> k < i \<and> result_empty None (result ! k) \<longrightarrow>
               (\<exists>j. j = kept_indices None result ! i \<and> i < j \<and> j < length source_lines
                  \<and> preprocess (source_preprocessing a) None (PStr (source_lines ! j))
                        = Inr (get_source self ! i)
                  \<and> get_source_txt self ! i = PStr (source_lines ! i)
                  \<and> (\<forall>item. getitem self (int i) = Inr item \<longrightarrow>
                         map_of item ''src'' = Some (get_source self ! i)
                       \<and> map_of item ''src_txt'' = Some (PStr (source_lines ! i)))
                  \<and> ((case self_target self of None \<Rightarrow> True | Some t \<Rightarrow> i < length t) \<longrightarrow>
                         (\<exists>item. getitem self (int i) = Inr item))))"
proof -
  from assms obtain source_lines result where
    ls: "load_txt fs (source_file a) (source a) (top_n a) = Inr source_lines" and
    ps: "parallel_preprocess pool cpu_count (map PStr source_lines) (source_preprocessing a) None
           (n_processes a) = Inr result" and
    rawtxt: "self_source_txt self = map PStr source_lines" and
    src: "self_source self = map ((!) result) (kept_indices None result)" and
    len: "length result = length source_lines" and
    pre: "\<forall>j<length source_lines.
       preprocess (source_preprocessing a) None (PStr (source_lines ! j)) = Inr (result ! j)"
    by (rule untokenized_init)
  from assms(1) have m: "materialized self" by (rule constructed)
  have src': "self_source self = filter (\<lambda>x. \<not> result_empty None x) result"
    by (simp add: src kept_indices_values)
  have le: "length (self_source self) \<le> length (self_source_txt self)"
    by (simp add: src' rawtxt len [symmetric])
  have full: "length (self_source self) = length (self_source_txt self)
               \<longleftrightarrow> (\<forall>x\<in>set result. \<not> result_empty None x)"
    by (simp add: src' rawtxt len [symmetric] length_filter_full)
  have idx: "\<exists>j. j = kept_indices None result ! i \<and> i < j \<and> j < length source_lines
                  \<and> preprocess (source_preprocessing a) None (PStr (source_lines ! j))
                        = Inr (get_source self ! i)
                  \<and> get_source_txt self ! i = PStr (source_lines ! i)
                  \<and> (\<forall>item. getitem self (int i) = Inr item \<longrightarrow>
                         map_of item ''src'' = Some (get_source self ! i)
                       \<and> map_of item ''src_txt'' = Some (PStr (source_lines ! i)))
                  \<and> ((case self_target self of None \<Rightarrow> True | Some t \<Rightarrow> i < length t) \<longrightarrow>
                         (\<exists>item. getitem self (int i) = Inr item))"
    if h: "i < len self \<and> k < i \<and> result_empty None (result ! k)" for i k
  proof -
    let ?j = "kept_indices None result ! i"
    from h have i: "i < length (kept_indices None result)" "i < length (self_source self)"
      by (simp_all add: len_def src)
    from h have past: "i < ?j"
      by (intro kept_indices_past [OF i(1), of k]) simp_all
    from kept_indices_in_range [OF i(1)] len have range: "?j < length source_lines"
      by simp
    with past have i_range: "i < length source_lines" by simp
    from i(1) have val: "self_source self ! i = result ! ?j"
      by (simp add: src)
    from pre range val have origin:
      "preprocess (source_preprocessing a) None (PStr (source_lines ! ?j))
         = Inr (get_source self ! i)"
      by (simp add: get_source_def)
    from i_range have raw: "get_source_txt self ! i = PStr (source_lines ! i)"
      by (simp add: get_source_txt_def rawtxt)
    have fields: "map_of item ''src'' = Some (get_source self ! i)
                \<and> map_of item ''src_txt'' = Some (PStr (source_lines ! i))"
      if "getitem self (int i) = Inr item" for item
      using getitem_fields [OF that i(2) le] raw
      by (simp add: get_source_def get_source_txt_def)
    have returns: "\<exists>item. getitem self (int i) = Inr item"
      if "case self_target self of None \<Rightarrow> True | Some t \<Rightarrow> i < length t"
      using m i(2) that by (rule getitem_returns)
    from past range origin raw fields returns show ?thesis by blast
  qed
  have "get_source_txt self = map PStr source_lines"
    and "length (get_source self) \<le> length (get_source_txt self)"
    and "length (get_source self) = length (get_source_txt self)
               \<longleftrightarrow> (\<forall>x\<in>set result. \<not> result_empty None x)"
    using rawtxt le full by (simp_all add: get_source_def get_source_txt_def)
  with ls ps idx show ?thesis
    by (intro exI [of _ source_lines] exI [of _ result]) (simp only: simp_thms, blast)
qed

theorem untokenized_source_txt_unfiltered_witness:
  "summarization_dataset_init (\<lambda>p. None) plain_pool 1
     \<lparr>source_file = None, source = Some [[], ''b'', ''c'', ''d''],
      target_file = None, target = None,
      source_preprocessing = None, target_preprocessing = None, word_tokenize = None,
      top_n = - 1, n_processes = - 1\<rparr>
     = Inr \<lparr>self_source_txt = [PStr [], PStr ''b'', PStr ''c'', PStr ''d''],
            self_source = [PStr ''b'', PStr ''c'', PStr ''d''],
            self_target_txt = None, self_target = None\<rparr>
   \<and> (1::nat) < kept_indices None [PStr [], PStr ''b'', PStr ''c'', PStr ''d''] ! 1
   \<and> getitem \<lparr>self_source_txt = [PStr [], PStr ''b'', PStr ''c'', PStr ''d''],
               self_source = [PStr ''b'', PStr ''c'', PStr ''d''],
               self_target_txt = None, self_target = None\<rparr> 1
       = Inr [(''src'', PStr ''c''), (''src_txt'', PStr ''b'')]"
proof -
  let ?a = "\<lparr>source_file = None, source = Some [[], ''b'', ''c'', ''d''],
      target_file = None, target = None,
      source_preprocessing = None, target_preprocessing = None, word_tokenize = None,
      top_n = - 1, n_processes = - 1\<rparr>"
  let ?d = "\<lparr>self_source_txt = [PStr [], PStr ''b'', PStr ''c'', PStr ''d''],
            self_source = [PStr ''b'', PStr ''c'', PStr ''d''],
            self_target_txt = None, self_target = None\<rparr>"
  have built: "summarization_dataset_init (\<lambda>p. None) plain_pool 1 ?a = Inr ?d"
    by (simp add: summarization_dataset_init_def load_txt_def parallel_preprocess_eq plain_pool_def partial_picklable_def
          resolve_num_pool_def preprocess_def keep_results_def value_nonempty_def ebind_def)
  have untok: "word_tokenize ?a = None"
    by simp
  from untokenized_source_txt_unfiltered [OF built untok] obtain source_lines result where
    l: "load_txt (\<lambda>p. None) (source_file ?a) (source ?a) (top_n ?a) = Inr source_lines" and
    p: "parallel_preprocess plain_pool 1 (map PStr source_lines) (source_preprocessing ?a) None
          (n_processes ?a) = Inr result" and
    c: "\<forall>i k. i < len ?d \<and> k < i \<and> result_empty None (result ! k) \<longrightarrow>
          (\<exists>j. j = kept_indices None result ! i \<and> i < j \<and> j < length source_lines
             \<and> preprocess (source_preprocessing ?a) None (PStr (source_lines ! j))
                   = Inr (get_source ?d ! i)
             \<and> get_source_txt ?d ! i = PStr (source_lines ! i)
             \<and> (\<forall>item. getitem ?d (int i) = Inr item \<longrightarrow>
                    map_of item ''src'' = Some (get_source ?d ! i)
                  \<and> map_of item ''src_txt'' = Some (PStr (source_lines ! i)))
             \<and> ((case self_target ?d of None \<Rightarrow> True | Some t \<Rightarrow> i < length t) \<longrightarrow>
                    (\<exists>item. getitem ?d (int i) = Inr item)))"
    by (elim exE conjE)
  from l have sl: "source_lines = [[], ''b'', ''c'', ''d'']"
    by (simp add: load_txt_def ebind_def)
  from p have res: "result = [PStr [], PStr ''b'', PStr ''c'', PStr ''d'']"
    unfolding sl
    by (simp add: parallel_preprocess_eq plain_pool_def partial_picklable_def
          resolve_num_pool_def preprocess_def ebind_def)
  have "(1::nat) < len ?d \<and> (0::nat) < 1 \<and> result_empty None (result ! 0)"
    by (simp add: res len_def result_empty_def)
  with c have "1 < kept_indices None result ! 1"
    by blast
  moreover have "getitem ?d 1 = Inr [(''src'', PStr ''c''), (''src_txt'', PStr ''b'')]"
    by (simp add: getitem_def list_getitem_def ebind_def)
  ultimately show ?thesis
    using built unfolding res by simp
qed

theorem getitem_short_target_counterexample:
  "summarization_dataset_init (\<lambda>p. None) plain_pool 1
     \<lparr>source_file = None, source = Some [[], ''b'', ''c''],
      target_file = None, target = Some [''x'', [], []],
      source_preprocessing = None, target_preprocessing = None, word_tokenize = None,
      top_n = - 1, n_processes = - 1\<rparr>
     = Inr \<lparr>self_source_txt = [PStr [], PStr ''b'', PStr ''c''],
            self_source = [PStr ''b'', PStr ''c''],
            self_target_txt = Some [PStr ''x'', PStr [], PStr []],
            self_target = Some [PStr ''x'']\<rparr>
   \<and> parallel_preprocess plain_pool 1 (map PStr [[], ''b'', ''c'']) None None (- 1)
       = Inr [PStr [], PStr ''b'', PStr ''c'']
   \<and> result_empty None ([PStr [], PStr ''b'', PStr ''c''] ! 0)
   \<and> (0::nat) < 1
   \<and> 1 < len \<lparr>self_source_txt = [PStr [], PStr ''b'', PStr ''c''],
               self_source = [PStr ''b'', PStr ''c''],
               self_target_txt = Some [PStr ''x'', PStr [], PStr []],
               self_target = Some [PStr ''x'']\<rparr>
   \<and> getitem \<lparr>self_source_txt = [PStr [], PStr ''b'', PStr ''c''],
               self_source = [PStr ''b'', PStr ''c''],
               self_target_txt = Some [PStr ''x'', PStr [], PStr []],
               self_target = Some [PStr ''x'']\<rparr> 1 = Inl IndexError"
  by (simp add: summarization_dataset_init_def load_txt_def parallel_preprocess_eq
        plain_pool_def partial_picklable_def
        resolve_num_pool_def preprocess_def keep_results_def value_nonempty_def ebind_def
        result_empty_def getitem_def list_getitem_def len_def)

end
